theory Spec2Isabelle
  imports Main "HOL-Library.AList" "HOL-Library.Sublist" "HOL-Library.Word"
begin

section \<open>Python values handled by \<open>process_gpt_response\<close> (src/app.py)\<close>

subsection \<open>Strings\<close>

text \<open>
  A Python \<open>str\<close> is a sequence of Unicode code points; a code point is a \<open>nat\<close>.
  The literals of the source are written as HOL strings and embedded by \<open>lit\<close>;
  a HOL \<open>char\<close> is read as the code point of the same number (Latin-1), so
  \<open>CHR 0xE9\<close> is U+00E9 (e acute) and \<open>CHR 0xE8\<close> is U+00E8 (e grave).
\<close>

type_synonym pystr = "nat list"

definition lit :: "string \<Rightarrow> pystr" where
  "lit s = map of_char s"

text \<open>
  \<open>str.lower()\<close>. The mapping is written out for the code points below 256
  (A-Z, and U+00C0..U+00DE without the multiplication sign U+00D7, go 32 up) and for
  the two code points above 255 that \<open>capitalize\<close> produces from a code point below
  256 (U+0178 and U+039C). Every other code point is left as it is, where Python
  lower-cases some 1400 of them (U+0152 to U+0153, for one): on a str with a code
  point above 255 \<open>lower\<close> is not \<open>str.lower\<close>. So a statement below that gives a
  lower-cased str as a value of the source is made for strs of code points below 256
  only; the other uses of \<open>lower\<close> are tests for an ASCII token or for equality with a
  label or a key, and no code point above 255 takes part in such a match.
\<close>

definition lower_cp :: "nat \<Rightarrow> nat" where
  "lower_cp c =
     (if 65 \<le> c \<and> c \<le> 90 then c + 32
      else if 192 \<le> c \<and> c \<le> 222 \<and> c \<noteq> 215 then c + 32
      else if c = 376 then 255
      else if c = 924 then 956
      else c)"

definition lower :: "pystr \<Rightarrow> pystr" where
  "lower s = map lower_cp s"

text \<open>
  The title case of one code point, as \<open>str.capitalize()\<close> applies it to the first
  character (Python 3.8 and later): a-z and U+00E0..U+00FE without the division sign
  U+00F7 go 32 down, U+00DF (sharp s) becomes the two characters \<open>Ss\<close>, U+00FF becomes
  U+0178 and U+00B5 (micro sign) becomes U+039C. A code point above 255 is left as
  it is, where Python title-cases many of them; the source only compares a capitalized
  str with the labels and searches it for \<open>present\<close>, and never returns it otherwise.
\<close>

definition title_cp :: "nat \<Rightarrow> pystr" where
  "title_cp c =
     (if 97 \<le> c \<and> c \<le> 122 then [c - 32]
      else if 224 \<le> c \<and> c \<le> 254 \<and> c \<noteq> 247 then [c - 32]
      else if c = 223 then [83, 115]
      else if c = 255 then [376]
      else if c = 181 then [924]
      else [c])"

text \<open>\<open>str.capitalize()\<close>: the first character in title case, the rest in lower case.\<close>

fun capitalize :: "pystr \<Rightarrow> pystr" where
  "capitalize [] = []"
| "capitalize (c # cs) = title_cp c @ lower cs"

text \<open>\<open>sub in s\<close> on two strings: \<open>sub\<close> occurs in \<open>s\<close> as a contiguous run.\<close>

fun starts_with :: "pystr \<Rightarrow> pystr \<Rightarrow> bool" where
  "starts_with s [] = True"
| "starts_with [] (p # ps) = False"
| "starts_with (c # cs) (p # ps) = (c = p \<and> starts_with cs ps)"

fun str_contains :: "pystr \<Rightarrow> pystr \<Rightarrow> bool" where
  "str_contains sub [] = (sub = [])"
| "str_contains sub (c # cs) = (starts_with (c # cs) sub \<or> str_contains sub cs)"

subsection \<open>Decoded JSON\<close>

text \<open>
  What \<open>json.loads\<close> returns: \<open>None\<close>, a bool, an int, a float, a str, a list or a
  dict with str keys. A float is carried as its 64 bits and never inspected. A dict is
  an association list in insertion order; \<open>d[k] = v\<close> is \<open>AList.update\<close> (an existing
  key keeps its place, a new key goes to the end) and a lookup is \<open>map_of\<close>.
\<close>

datatype json =
    JNull
  | JBool bool
  | JInt int
  | JFloat "64 word"
  | JStr pystr
  | JList "json list"
  | JDict "(pystr \<times> json) list"

type_synonym dict = "(pystr \<times> json) list"

datatype error = TypeError | KeyError | AttributeError | UnicodeEncodeError

text \<open>Sequencing of statements that may raise: the first exception ends the call.\<close>

definition bind :: "error + 'a \<Rightarrow> ('a \<Rightarrow> error + 'b) \<Rightarrow> error + 'b" where
  "bind m f = (case m of Inl e \<Rightarrow> Inl e | Inr x \<Rightarrow> f x)"

text \<open>
  \<open>k in x\<close> for a str \<open>k\<close>: key membership on a dict, element membership on a list,
  substring on a str, TypeError on anything else (not iterable).
\<close>

fun py_in :: "pystr \<Rightarrow> json \<Rightarrow> error + bool" where
  "py_in k (JDict d) = Inr (map_of d k \<noteq> None)"
| "py_in k (JList xs) = Inr (JStr k \<in> set xs)"
| "py_in k (JStr s) = Inr (str_contains k s)"
| "py_in k _ = Inl TypeError"

text \<open>
  \<open>x[k]\<close> for a str \<open>k\<close>: KeyError on a dict without the key, TypeError on a list or
  a str (indices must be integers) and on anything else (not subscriptable).
\<close>

fun getitem :: "json \<Rightarrow> pystr \<Rightarrow> error + json" where
  "getitem (JDict d) k = (case map_of d k of None \<Rightarrow> Inl KeyError | Some v \<Rightarrow> Inr v)"
| "getitem _ k = Inl TypeError"

text \<open>
  \<open>x[k] = v\<close> for a str \<open>k\<close>: only a dict accepts it. The dict is updated in place in
  the source; here the updated dict is returned.
\<close>

fun setitem :: "json \<Rightarrow> pystr \<Rightarrow> json \<Rightarrow> error + json" where
  "setitem (JDict d) k v = Inr (JDict (AList.update k v d))"
| "setitem _ k v = Inl TypeError"

text \<open>\<open>x.lower()\<close> and \<open>x.capitalize()\<close>: only a str has these methods.\<close>

fun lower_method :: "json \<Rightarrow> error + pystr" where
  "lower_method (JStr s) = Inr (lower s)"
| "lower_method _ = Inl AttributeError"

fun capitalize_method :: "json \<Rightarrow> error + pystr" where
  "capitalize_method (JStr s) = Inr (capitalize s)"
| "capitalize_method _ = Inl AttributeError"

fun is_dict :: "json \<Rightarrow> bool" where
  "is_dict (JDict d) = True"
| "is_dict _ = False"

fun is_str :: "json \<Rightarrow> bool" where
  "is_str (JStr s) = True"
| "is_str _ = False"

section \<open>\<open>process_gpt_response\<close>\<close>

subsection \<open>The default structure (lines 207-239)\<close>

definition Presente :: pystr where
  "Presente = lit (''Pr'' @ [CHR 0xE9] @ ''sente'')"

definition Absente :: pystr where
  "Absente = lit ''Absente''"

definition Present :: pystr where
  "Present = lit (''Pr'' @ [CHR 0xE9] @ ''sent'')"

definition Absent :: pystr where
  "Absent = lit ''Absent''"

definition Presents :: pystr where
  "Presents = lit (''Pr'' @ [CHR 0xE9] @ ''sents'')"

definition Absents :: pystr where
  "Absents = lit ''Absents''"

definition Continue :: pystr where
  "Continue = lit ''Continue''"

definition Partiellement_interrompue :: pystr where
  "Partiellement_interrompue = lit ''Partiellement interrompue''"

definition Completement_interrompue :: pystr where
  "Completement_interrompue = lit (''Compl'' @ [CHR 0xE8] @ ''tement interrompue'')"

definition default_eye :: dict where
  "default_eye =
     [(lit ''dril'', JDict [(lit ''status'', JStr Absente), (lit ''extent'', JStr [])]),
      (lit ''oedeme'', JDict [(lit ''status'', JStr Absent), (lit ''nb_logette'', JStr []),
                              (lit ''taille'', JStr []), (lit ''localisation'', JStr [])]),
      (lit ''mle'', JStr Continue),
      (lit ''ze'', JStr Continue),
      (lit ''points_hyperreflectifs'',
         JDict [(lit ''status'', JStr Absents), (lit ''nombre'', JStr []),
                (lit ''localisation'', JStr [])]),
      (lit ''epaisseur_retinienne'',
         JDict [(lit ''central'', JStr []), (lit ''superieur'', JStr []),
                (lit ''inferieur'', JStr []), (lit ''nasal'', JStr []),
                (lit ''temporal'', JStr [])]),
      (lit ''briding'', JStr Absent),
      (lit ''decollement'', JStr Absent)]"

text \<open>
  \<open>default_structure["right_eye"]\<close> is a deep copy of \<open>default_structure["left_eye"]\<close>:
  an equal value. The structure is built anew by every call.
\<close>

definition default_structure :: dict where
  "default_structure =
     [(lit ''left_eye'', JDict default_eye), (lit ''right_eye'', JDict default_eye)]"

subsection \<open>Size standardization mapping (lines 247-256)\<close>

definition taille_mapping :: "(pystr \<times> pystr) list" where
  "taille_mapping =
     [(lit ''small'', lit ''petite''),
      (lit ''medium'', lit ''grande''),
      (lit ''large'', lit ''volumineuse''),
      (lit ''petit'', lit ''petite''),
      (lit ''grand'', lit ''grande''),
      (lit ''<100'', lit ''petite''),
      (lit ''100-200'', lit ''grande''),
      (lit ''>200'', lit ''volumineuse'')]"

text \<open>\<open>taille_mapping.get(taille, taille)\<close>\<close>

definition taille_get :: "pystr \<Rightarrow> pystr" where
  "taille_get taille = (case map_of taille_mapping taille of None \<Rightarrow> taille | Some t \<Rightarrow> t)"

subsection \<open>Processing one eye (lines 264-320)\<close>

text \<open>
  Lines 269-271, 276-278 and 300-302 are the same three statements on the dict \<open>sub\<close>
  (\<open>eye_data["dril"]\<close>, \<open>eye_data["oedeme"]\<close>, \<open>points\<close>) with the two labels of the
  field:
  \<^verbatim>\<open>
  sub["status"] = sub["status"].capitalize()
  if sub["status"] not in [present, absent]:
      sub["status"] = present if "present" in sub["status"].lower() else absent
  \<close>
\<close>

definition standardize_status :: "pystr \<Rightarrow> pystr \<Rightarrow> json \<Rightarrow> error + json" where
  "standardize_status present absent sub =
     bind (getitem sub (lit ''status'')) (\<lambda>raw.
     bind (capitalize_method raw) (\<lambda>status.
     bind (setitem sub (lit ''status'') (JStr status)) (\<lambda>sub1.
       if status \<notin> set [present, absent]
       then setitem sub1 (lit ''status'')
              (JStr (if str_contains (lit ''present'') (lower status) then present else absent))
       else Inr sub1)))"

text \<open>
  Lines 267-271. The dict \<open>eye_data["dril"]\<close> is changed in place in the source; here
  the changed dict is stored back under its key.
\<close>

definition standardize_dril :: "json \<Rightarrow> error + json" where
  "standardize_dril eye_data =
     bind (py_in (lit ''dril'') eye_data) (\<lambda>present.
       if present then
         bind (getitem eye_data (lit ''dril'')) (\<lambda>dril.
           if is_dict dril then
             bind (standardize_status Presente Absente dril) (\<lambda>dril'.
               setitem eye_data (lit ''dril'') dril')
           else Inr eye_data)
       else Inr eye_data)"

text \<open>
  Lines 281-283, on the dict \<open>oedeme = eye_data["oedeme"]\<close>:
  \<^verbatim>\<open>
  if "taille" in oedeme:
      taille = oedeme["taille"].lower()
      oedeme["taille"] = taille_mapping.get(taille, taille)
  \<close>
\<close>

definition standardize_taille :: "json \<Rightarrow> error + json" where
  "standardize_taille oedeme =
     bind (py_in (lit ''taille'') oedeme) (\<lambda>present.
       if present then
         bind (getitem oedeme (lit ''taille'')) (\<lambda>raw.
         bind (lower_method raw) (\<lambda>taille.
           setitem oedeme (lit ''taille'') (JStr (taille_get taille))))
       else Inr oedeme)"

text \<open>Lines 274-283.\<close>

definition standardize_oedeme :: "json \<Rightarrow> error + json" where
  "standardize_oedeme eye_data =
     bind (py_in (lit ''oedeme'') eye_data) (\<lambda>present.
       if present then
         bind (getitem eye_data (lit ''oedeme'')) (\<lambda>oedeme.
           if is_dict oedeme then
             bind (standardize_status Present Absent oedeme) (\<lambda>oedeme1.
             bind (standardize_taille oedeme1) (\<lambda>oedeme2.
               setitem eye_data (lit ''oedeme'') oedeme2))
           else Inr eye_data)
       else Inr eye_data)"

text \<open>Lines 287-294: the body of the loop over \<open>["mle", "ze"]\<close> for one \<open>field\<close>.\<close>

definition standardize_membrane :: "pystr \<Rightarrow> json \<Rightarrow> error + json" where
  "standardize_membrane field eye_data =
     bind (py_in field eye_data) (\<lambda>present.
       if present then
         bind (getitem eye_data field) (\<lambda>v.
         bind (lower_method v) (\<lambda>l1.
           if str_contains (lit ''continu'') l1 then setitem eye_data field (JStr Continue)
           else bind (lower_method v) (\<lambda>l2.
             if str_contains (lit ''partiel'') l2
             then setitem eye_data field (JStr Partiellement_interrompue)
             else bind (lower_method v) (\<lambda>l3.
               if str_contains (lit ''complet'') l3
               then setitem eye_data field (JStr Completement_interrompue)
               else Inr eye_data))))
       else Inr eye_data)"

text \<open>Lines 286-294: the loop.\<close>

fun standardize_membranes :: "pystr list \<Rightarrow> json \<Rightarrow> error + json" where
  "standardize_membranes [] eye_data = Inr eye_data"
| "standardize_membranes (field # fields) eye_data =
     bind (standardize_membrane field eye_data) (standardize_membranes fields)"

text \<open>Lines 297-302.\<close>

definition standardize_points :: "json \<Rightarrow> error + json" where
  "standardize_points eye_data =
     bind (py_in (lit ''points_hyperreflectifs'') eye_data) (\<lambda>present.
       if present then
         bind (getitem eye_data (lit ''points_hyperreflectifs'')) (\<lambda>points.
           if is_dict points then
             bind (standardize_status Presents Absents points) (\<lambda>points'.
               setitem eye_data (lit ''points_hyperreflectifs'') points')
           else Inr eye_data)
       else Inr eye_data)"

text \<open>Lines 305-314.\<close>

definition format_epaisseur :: "json \<Rightarrow> error + json" where
  "format_epaisseur eye_data =
     bind (py_in (lit ''epaisseur_retinienne'') eye_data) (\<lambda>present.
       if present then
         bind (getitem eye_data (lit ''epaisseur_retinienne'')) (\<lambda>v.
           if is_str v then
             setitem eye_data (lit ''epaisseur_retinienne'')
               (JDict [(lit ''central'', v), (lit ''superieur'', JStr []),
                       (lit ''inferieur'', JStr []), (lit ''nasal'', JStr []),
                       (lit ''temporal'', JStr [])])
           else Inr eye_data)
       else Inr eye_data)"

text \<open>
  Lines 317-319: the loop over the items of \<open>default_structure[eye]\<close>, in their order.
\<close>

fun add_missing :: "dict \<Rightarrow> json \<Rightarrow> error + json" where
  "add_missing [] eye_data = Inr eye_data"
| "add_missing ((key, default_value) # items) eye_data =
     bind (py_in key eye_data) (\<lambda>present.
       if \<not> present then bind (setitem eye_data key default_value) (add_missing items)
       else add_missing items eye_data)"

text \<open>Lines 264-320: everything done to \<open>eye_data = response[eye]\<close>.\<close>

definition process_eye :: "json \<Rightarrow> error + json" where
  "process_eye eye_data =
     bind (standardize_dril eye_data) (\<lambda>e1.
     bind (standardize_oedeme e1) (\<lambda>e2.
     bind (standardize_membranes [lit ''mle'', lit ''ze''] e2) (\<lambda>e3.
     bind (standardize_points e3) (\<lambda>e4.
     bind (format_epaisseur e4) (\<lambda>e5.
       add_missing default_eye e5)))))"

subsection \<open>The loop over the eyes and the whole function (lines 241-324)\<close>

text \<open>
  Lines 259-320. \<open>eye_data\<close> is \<open>response[eye]\<close> itself, changed in place by the
  source; here the processed value is stored back under \<open>eye\<close>. Both entries of
  \<open>default_structure\<close> are \<open>default_eye\<close>.
\<close>

fun process_eyes :: "pystr list \<Rightarrow> json \<Rightarrow> error + json" where
  "process_eyes [] response = Inr response"
| "process_eyes (eye # eyes) response =
     bind (py_in eye response) (\<lambda>present.
       if \<not> present then
         bind (setitem response eye (JDict default_eye)) (process_eyes eyes)
       else
         bind (getitem response eye) (\<lambda>eye_data.
         bind (process_eye eye_data) (\<lambda>eye_data'.
         bind (setitem response eye eye_data') (process_eyes eyes))))"

text \<open>
  Line 243, \<open>print(f"Error: {response['error']}")\<close>, with the standard output encoded
  as UTF-8 (Python's default where the application is deployed). The text printed is
  \<open>str\<close> of the value: a str as it is, anything else through \<open>repr\<close>, which escapes
  every code point that cannot be printed. UTF-8 encodes every code point but the
  surrogates U+D800..U+DFFF, which a str decoded by \<open>json.loads\<close> can hold (from the
  escape for U+D800 in the JSON text); on a str that holds one, \<open>print\<close> raises
  \<open>UnicodeEncodeError\<close>. The other \<open>print\<close> calls of the function write fixed ASCII
  text, keys of \<open>default_structure\<close>, or the output of \<open>json.dumps\<close>, which is ASCII:
  they do not raise and are left out. Limits of the interpreter (recursion depth on a
  deeply nested value, memory) are outside the model.
\<close>

definition surrogate :: "nat \<Rightarrow> bool" where
  "surrogate c \<longleftrightarrow> 55296 \<le> c \<and> c \<le> 57343"

fun print_error :: "json \<Rightarrow> error + unit" where
  "print_error (JStr s) = (if list_ex surrogate s then Inl UnicodeEncodeError else Inr ())"
| "print_error v = Inr ()"

text \<open>
  The outcome of a call that returns: the value returned, and the contents of the
  caller's \<open>response\<close> object after the call. With the error marker the source
  returns \<open>default_structure\<close> and leaves \<open>response\<close> alone; otherwise it changes
  \<open>response\<close> in place and returns that same object (line 324). When the call raises,
  the changes made to \<open>response\<close> up to that point are not recorded.
\<close>

record outcome =
  returned :: json
  response_after :: json

definition process_gpt_response :: "json \<Rightarrow> error + outcome" where
  "process_gpt_response response =
     bind (py_in (lit ''error'') response) (\<lambda>marked.
       if marked then
         bind (getitem response (lit ''error'')) (\<lambda>err.
         bind (print_error err) (\<lambda>printed.
           Inr \<lparr>returned = JDict default_structure, response_after = response\<rparr>))
       else
         bind (process_eyes [lit ''left_eye'', lit ''right_eye''] response) (\<lambda>r.
           Inr \<lparr>returned = r, response_after = r\<rparr>))"

section \<open>The function on dicts, field by field\<close>

text \<open>
  The definitions of this section are not part of the source. They describe what the
  blocks of \<open>process_eye\<close> do to a dict, one key at a time; the lemmas of the next
  section prove that the functions above agree with them.
\<close>

text \<open>
  Apply \<open>f\<close> to the value under \<open>k\<close> and store the result there; a dict without
  \<open>k\<close> is left alone. \<open>apply_all\<close> does this for a list of keys, one after the other.
\<close>

definition apply_at :: "pystr \<Rightarrow> (json \<Rightarrow> error + json) \<Rightarrow> dict \<Rightarrow> error + dict" where
  "apply_at k f e =
     (case map_of e k of
        None \<Rightarrow> Inr e
      | Some v \<Rightarrow> bind (f v) (\<lambda>v'. Inr (AList.update k v' e)))"

fun apply_all :: "(pystr \<times> (json \<Rightarrow> error + json)) list \<Rightarrow> dict \<Rightarrow> error + dict" where
  "apply_all [] e = Inr e"
| "apply_all ((k, f) # kfs) e = bind (apply_at k f e) (apply_all kfs)"

text \<open>The status that lines 269-271 leave in the dict, from the raw one.\<close>

definition status_value :: "pystr \<Rightarrow> pystr \<Rightarrow> pystr \<Rightarrow> pystr" where
  "status_value present absent raw =
     (if capitalize raw = present \<or> capitalize raw = absent then capitalize raw
      else if str_contains (lit ''present'') (lower (capitalize raw)) then present
      else absent)"

text \<open>The value that lines 289-294 leave under \<open>mle\<close> or \<open>ze\<close>, from the raw one.\<close>

definition membrane_value :: "pystr \<Rightarrow> pystr" where
  "membrane_value raw =
     (if str_contains (lit ''continu'') (lower raw) then Continue
      else if str_contains (lit ''partiel'') (lower raw) then Partiellement_interrompue
      else if str_contains (lit ''complet'') (lower raw) then Completement_interrompue
      else raw)"

text \<open>
  What each block of \<open>process_eye\<close> does to the value under its key, and the list
  of the blocks in the order of the source.
\<close>

definition status_rule :: "pystr \<Rightarrow> pystr \<Rightarrow> json \<Rightarrow> error + json" where
  "status_rule p a v = (if is_dict v then standardize_status p a v else Inr v)"

definition oedeme_rule :: "json \<Rightarrow> error + json" where
  "oedeme_rule v =
     (if is_dict v then bind (standardize_status Present Absent v) standardize_taille
      else Inr v)"

definition membrane_rule :: "json \<Rightarrow> error + json" where
  "membrane_rule v =
     (case v of JStr raw \<Rightarrow> Inr (JStr (membrane_value raw)) | _ \<Rightarrow> Inl AttributeError)"

definition wrap_central :: "json \<Rightarrow> json" where
  "wrap_central v =
     JDict [(lit ''central'', v), (lit ''superieur'', JStr []), (lit ''inferieur'', JStr []),
            (lit ''nasal'', JStr []), (lit ''temporal'', JStr [])]"

definition epaisseur_rule :: "json \<Rightarrow> error + json" where
  "epaisseur_rule v = Inr (if is_str v then wrap_central v else v)"

definition eye_rules :: "(pystr \<times> (json \<Rightarrow> error + json)) list" where
  "eye_rules =
     [(lit ''dril'', status_rule Presente Absente),
      (lit ''oedeme'', oedeme_rule),
      (lit ''mle'', membrane_rule),
      (lit ''ze'', membrane_rule),
      (lit ''points_hyperreflectifs'', status_rule Presents Absents),
      (lit ''epaisseur_retinienne'', epaisseur_rule)]"

text \<open>Lines 317-319 on a dict: every key of \<open>items\<close> that is missing gets its value.\<close>

fun fill :: "dict \<Rightarrow> dict \<Rightarrow> dict" where
  "fill [] e = e"
| "fill ((k, v) # items) e = fill items (if map_of e k = None then AList.update k v e else e)"

text \<open>One round of the loop over the eyes (lines 260-320) on a dict.\<close>

definition eye_step :: "pystr \<Rightarrow> dict \<Rightarrow> error + dict" where
  "eye_step eye d =
     (case map_of d eye of
        None \<Rightarrow> Inr (AList.update eye (JDict default_eye) d)
      | Some v \<Rightarrow> bind (process_eye v) (\<lambda>v'. Inr (AList.update eye v' d)))"

text \<open>
  What the value under key \<open>k\<close> of a processed eye is, given what the eye held there
  (\<open>field_result\<close>), and what the value under an eye key of the returned dict is, given
  what the input held there (\<open>eye_result\<close>); \<open>None\<close> where the source raises.
\<close>

definition field_result :: "pystr \<Rightarrow> json option \<Rightarrow> json option" where
  "field_result k m =
     (case m of
        None \<Rightarrow> map_of default_eye k
      | Some v \<Rightarrow> (case map_of eye_rules k of
                     None \<Rightarrow> Some v
                   | Some f \<Rightarrow> (case f v of Inl err \<Rightarrow> None | Inr v' \<Rightarrow> Some v')))"

definition eye_result :: "json option \<Rightarrow> json option" where
  "eye_result m =
     (case m of
        None \<Rightarrow> Some (JDict default_eye)
      | Some v \<Rightarrow> (case process_eye v of Inl err \<Rightarrow> None | Inr v' \<Rightarrow> Some v'))"

section \<open>Reading a result\<close>

text \<open>\<open>v[k1][k2]...\<close> on nested dicts; \<open>None\<close> where a key is missing.\<close>

fun at_path :: "json \<Rightarrow> pystr list \<Rightarrow> json option" where
  "at_path v [] = Some v"
| "at_path (JDict d) (k # ks) = (case map_of d k of None \<Rightarrow> None | Some v \<Rightarrow> at_path v ks)"
| "at_path v (k # ks) = None"

text \<open>The same on the value a call returns; \<open>None\<close> when the call raises.\<close>

definition returned_at :: "error + outcome \<Rightarrow> pystr list \<Rightarrow> json option" where
  "returned_at r path = (case r of Inl e \<Rightarrow> None | Inr out \<Rightarrow> at_path (returned out) path)"

section \<open>The inputs on which the call returns\<close>

text \<open>
  The shape an input must have for no statement of \<open>process_gpt_response\<close> to raise:
  with the error marker, the error value must be one that line 243 can print; without
  it, a dict entry read with \<open>["status"]\<close> must hold a str there, a \<open>taille\<close> that is
  present must be a str, and \<open>mle\<close> and \<open>ze\<close> must be strs when present.
\<close>

fun has_str_status :: "json \<Rightarrow> bool" where
  "has_str_status (JDict sub) =
     (case map_of sub (lit ''status'') of Some (JStr s) \<Rightarrow> True | _ \<Rightarrow> False)"
| "has_str_status v = True"

fun has_str_taille :: "json \<Rightarrow> bool" where
  "has_str_taille (JDict sub) =
     (case map_of sub (lit ''taille'') of None \<Rightarrow> True | Some (JStr s) \<Rightarrow> True
      | Some v \<Rightarrow> False)"
| "has_str_taille v = True"

definition field_ok :: "pystr \<Rightarrow> json \<Rightarrow> bool" where
  "field_ok k v =
     (if k = lit ''dril'' \<or> k = lit ''points_hyperreflectifs'' then has_str_status v
      else if k = lit ''oedeme'' then has_str_status v \<and> has_str_taille v
      else if k = lit ''mle'' \<or> k = lit ''ze'' then is_str v
      else True)"

fun eye_ok :: "json \<Rightarrow> bool" where
  "eye_ok (JDict e) =
     list_all (\<lambda>k. case map_of e k of None \<Rightarrow> True | Some v \<Rightarrow> field_ok k v)
       [lit ''dril'', lit ''oedeme'', lit ''mle'', lit ''ze'', lit ''points_hyperreflectifs'']"
| "eye_ok v = False"

fun well_shaped :: "json \<Rightarrow> bool" where
  "well_shaped (JDict d) =
     (case map_of d (lit ''error'') of
        Some err \<Rightarrow> print_error err = Inr ()
      | None \<Rightarrow>
          list_all (\<lambda>eye. case map_of d eye of None \<Rightarrow> True | Some v \<Rightarrow> eye_ok v)
            [lit ''left_eye'', lit ''right_eye''])"
| "well_shaped v = False"

section \<open>The wording of the specification, for comparison\<close>

text \<open>
  The definitions of this section do not come from the source. The first four write
  down what the specification says about a status, a cyst size and a membrane value, so
  that it can be compared with what the source computes. \<open>strip\<close> is \<open>str.strip()\<close> on
  the whitespace below code point 256, the trimming the specification speaks of; the
  source never trims.
\<close>

definition is_space :: "nat \<Rightarrow> bool" where
  "is_space c = (c = 32 \<or> (9 \<le> c \<and> c \<le> 13) \<or> (28 \<le> c \<and> c \<le> 31) \<or> c = 133 \<or> c = 160)"

definition strip :: "pystr \<Rightarrow> pystr" where
  "strip s = rev (dropWhile is_space (rev (dropWhile is_space s)))"

text \<open>
  A status by the specification: the label that the trimmed, case-folded raw string
  matches, otherwise by the token \<open>present\<close>.
\<close>

definition spec_status :: "pystr \<Rightarrow> pystr \<Rightarrow> pystr \<Rightarrow> pystr" where
  "spec_status present absent raw =
     (if lower (strip raw) = lower present then present
      else if lower (strip raw) = lower absent then absent
      else if str_contains (lit ''present'') (lower raw) then present
      else absent)"


text \<open>
  A membrane value by the specification: the tokens \<open>continu\<close>, \<open>partial\<close>, \<open>complet\<close>
  in that order, anything else unchanged.
\<close>

definition spec_membrane :: "pystr \<Rightarrow> pystr" where
  "spec_membrane raw =
     (if str_contains (lit ''continu'') (lower raw) then Continue
      else if str_contains (lit ''partial'') (lower raw) then Partiellement_interrompue
      else if str_contains (lit ''complet'') (lower raw) then Completement_interrompue
      else raw)"

text \<open>
  The three status fields of an eye record hold one of their two labels wherever the
  field is a dict.
\<close>

definition statuses_closed :: "dict \<Rightarrow> bool" where
  "statuses_closed e \<longleftrightarrow>
     (\<forall>sub. map_of e (lit ''dril'') = Some (JDict sub) \<longrightarrow>
        map_of sub (lit ''status'') = Some (JStr Presente) \<or>
        map_of sub (lit ''status'') = Some (JStr Absente)) \<and>
     (\<forall>sub. map_of e (lit ''oedeme'') = Some (JDict sub) \<longrightarrow>
        map_of sub (lit ''status'') = Some (JStr Present) \<or>
        map_of sub (lit ''status'') = Some (JStr Absent)) \<and>
     (\<forall>sub. map_of e (lit ''points_hyperreflectifs'') = Some (JDict sub) \<longrightarrow>
        map_of sub (lit ''status'') = Some (JStr Presents) \<or>
        map_of sub (lit ''status'') = Some (JStr Absents))"

section \<open>Properties\<close>

subsection \<open>Strings and labels\<close>

lemma lit_eq_iff [simp]: "lit a = lit b \<longleftrightarrow> a = b"
  unfolding lit_def by (rule inj_map_eq_map) (rule inj_onI, simp)

lemma starts_with_prefix: "starts_with s p \<longleftrightarrow> prefix p s"
  by (induction s p rule: starts_with.induct) auto

lemma str_contains_sublist: "str_contains sub s \<longleftrightarrow> sublist sub s"
  by (induction s) (simp_all add: starts_with_prefix sublist_Cons_right)

lemma bind_Inl [simp]: "bind (Inl e) f = Inl e"
  by (simp add: bind_def)

lemma bind_Inr [simp]: "bind (Inr x) f = f x"
  by (simp add: bind_def)

lemma bind_eq_Inr: "bind m f = Inr y \<longleftrightarrow> (\<exists>x. m = Inr x \<and> f x = Inr y)"
  by (cases m) simp_all

lemmas label_defs = Presente_def Absente_def Present_def Absent_def Presents_def Absents_def
  Continue_def Partiellement_interrompue_def Completement_interrompue_def

lemma cap_labels:
  "capitalize Presente = Presente" "capitalize Absente = Absente"
  "capitalize Present = Present" "capitalize Absent = Absent"
  "capitalize Presents = Presents" "capitalize Absents = Absents"
  by (simp_all add: label_defs lit_def lower_def lower_cp_def title_cp_def)

lemma labels_distinct: "Presente \<noteq> Absente" "Present \<noteq> Absent" "Presents \<noteq> Absents"
  by (simp_all add: label_defs)

lemma lower_cp_idem: "lower_cp (lower_cp c) = lower_cp c"
  by (simp add: lower_cp_def)


lemma lower_idem [simp]: "lower (lower s) = lower s"
  by (simp add: lower_def lower_cp_idem)

lemma membrane_labels:
  "str_contains (lit ''continu'') (lower Continue)"
  "\<not> str_contains (lit ''continu'') (lower Partiellement_interrompue)"
  "str_contains (lit ''partiel'') (lower Partiellement_interrompue)"
  "\<not> str_contains (lit ''continu'') (lower Completement_interrompue)"
  "\<not> str_contains (lit ''partiel'') (lower Completement_interrompue)"
  "\<not> str_contains (lit ''complet'') (lower Completement_interrompue)"
  by (simp_all add: label_defs lit_def lower_def lower_cp_def)

subsection \<open>The blocks of \<open>process_eye\<close> on a dict\<close>

lemma standardize_status_dict:
  "standardize_status p a (JDict sub) =
     (case map_of sub (lit ''status'') of
        None \<Rightarrow> Inl KeyError
      | Some (JStr raw) \<Rightarrow>
          Inr (JDict (AList.update (lit ''status'') (JStr (status_value p a raw)) sub))
      | Some _ \<Rightarrow> Inl AttributeError)"
  by (simp add: standardize_status_def status_value_def split: option.splits json.splits)

lemma standardize_taille_dict:
  "standardize_taille (JDict sub) =
     (case map_of sub (lit ''taille'') of
        None \<Rightarrow> Inr (JDict sub)
      | Some (JStr raw) \<Rightarrow>
          Inr (JDict (AList.update (lit ''taille'') (JStr (taille_get (lower raw))) sub))
      | Some _ \<Rightarrow> Inl AttributeError)"
  by (simp add: standardize_taille_def split: option.splits json.splits)

lemma standardize_dril_dict:
  "standardize_dril (JDict e) =
     bind (apply_at (lit ''dril'') (status_rule Presente Absente) e) (\<lambda>e'. Inr (JDict e'))"
  by (simp add: standardize_dril_def apply_at_def status_rule_def AList.update_triv bind_def
      split: option.splits sum.splits)

lemma standardize_points_dict:
  "standardize_points (JDict e) =
     bind (apply_at (lit ''points_hyperreflectifs'') (status_rule Presents Absents) e)
       (\<lambda>e'. Inr (JDict e'))"
  by (simp add: standardize_points_def apply_at_def status_rule_def AList.update_triv bind_def
      split: option.splits sum.splits)

lemma standardize_oedeme_dict:
  "standardize_oedeme (JDict e) =
     bind (apply_at (lit ''oedeme'') oedeme_rule e) (\<lambda>e'. Inr (JDict e'))"
  by (simp add: standardize_oedeme_def apply_at_def oedeme_rule_def AList.update_triv bind_def
      split: option.splits sum.splits)

lemma standardize_membrane_dict:
  "standardize_membrane field (JDict e) =
     bind (apply_at field membrane_rule e) (\<lambda>e'. Inr (JDict e'))"
  by (simp add: standardize_membrane_def apply_at_def membrane_rule_def membrane_value_def
      AList.update_triv split: option.splits json.splits)

lemma format_epaisseur_dict:
  "format_epaisseur (JDict e) =
     bind (apply_at (lit ''epaisseur_retinienne'') epaisseur_rule e) (\<lambda>e'. Inr (JDict e'))"
  by (simp add: format_epaisseur_def apply_at_def epaisseur_rule_def wrap_central_def
      AList.update_triv split: option.splits)

lemma add_missing_dict: "add_missing items (JDict e) = Inr (JDict (fill items e))"
  by (induction items arbitrary: e) auto

lemma bind_assoc: "bind (bind m f) g = bind m (\<lambda>x. bind (f x) g)"
  by (cases m) simp_all

lemma process_eye_dict:
  "process_eye (JDict e) =
     bind (apply_all eye_rules e) (\<lambda>e'. Inr (JDict (fill default_eye e')))"
  by (simp add: process_eye_def eye_rules_def standardize_dril_dict standardize_oedeme_dict
      standardize_membrane_dict standardize_points_dict format_epaisseur_dict add_missing_dict
      bind_assoc)

lemma apply_at_lookup:
  assumes "apply_at k f e = Inr e'"
  shows "map_of e' k' =
     (if k' = k then (case map_of e k of None \<Rightarrow> None
                      | Some v \<Rightarrow> (case f v of Inl err \<Rightarrow> None | Inr v' \<Rightarrow> Some v'))
      else map_of e k')"
  using assms
  by (auto simp: apply_at_def bind_eq_Inr AList.update_conv' split: option.splits)

lemma apply_all_lookup:
  assumes "distinct (map fst kfs)" and "apply_all kfs e = Inr e'"
  shows "map_of e' k =
     (case map_of kfs k of
        None \<Rightarrow> map_of e k
      | Some f \<Rightarrow> (case map_of e k of None \<Rightarrow> None
                   | Some v \<Rightarrow> (case f v of Inl err \<Rightarrow> None | Inr v' \<Rightarrow> Some v')))"
  using assms
proof (induction kfs arbitrary: e)
  case Nil
  then show ?case by simp
next
  case (Cons kf kfs)
  obtain k0 f0 where kf: "kf = (k0, f0)" by (cases kf)
  from Cons.prems(2) kf obtain e1 where
    e1: "apply_at k0 f0 e = Inr e1" and rest: "apply_all kfs e1 = Inr e'"
    by (auto simp: bind_eq_Inr)
  from Cons.prems(1) kf have d: "distinct (map fst kfs)" and notin: "k0 \<notin> fst ` set kfs"
    by auto
  have IH: "map_of e' k =
     (case map_of kfs k of
        None \<Rightarrow> map_of e1 k
      | Some f \<Rightarrow> (case map_of e1 k of None \<Rightarrow> None
                   | Some v \<Rightarrow> (case f v of Inl err \<Rightarrow> None | Inr v' \<Rightarrow> Some v')))"
    by (rule Cons.IH [OF d rest])
  show ?case
  proof (cases "k = k0")
    case True
    with notin have "map_of kfs k = None" by (simp add: map_of_eq_None_iff)
    with IH True kf show ?thesis by (simp add: apply_at_lookup [OF e1])
  next
    case False
    then have "map_of e1 k = map_of e k" by (simp add: apply_at_lookup [OF e1])
    with IH kf False show ?thesis by (simp split: option.splits)
  qed
qed

lemma apply_at_returns:
  "(\<exists>e'. apply_at k f e = Inr e') \<longleftrightarrow> (\<forall>v. map_of e k = Some v \<longrightarrow> (\<exists>v'. f v = Inr v'))"
  by (auto simp: apply_at_def bind_eq_Inr split: option.splits)

lemma apply_all_returns:
  assumes "distinct (map fst kfs)"
  shows "(\<exists>e'. apply_all kfs e = Inr e') \<longleftrightarrow>
     (\<forall>(k, f) \<in> set kfs. \<forall>v. map_of e k = Some v \<longrightarrow> (\<exists>v'. f v = Inr v'))"
  using assms
proof (induction kfs arbitrary: e)
  case Nil
  then show ?case by simp
next
  case (Cons kf kfs)
  obtain k0 f0 where kf: "kf = (k0, f0)" by (cases kf)
  from Cons.prems kf have d: "distinct (map fst kfs)" and notin: "k0 \<notin> fst ` set kfs"
    by auto
  have same: "map_of e1 k = map_of e k"
    if "apply_at k0 f0 e = Inr e1" and "(k, f) \<in> set kfs" for e1 k f
  proof -
    from that(2) notin have "k \<noteq> k0" by force
    then show ?thesis by (simp add: apply_at_lookup [OF that(1)])
  qed
  show ?case
  proof
    assume "\<exists>e'. apply_all (kf # kfs) e = Inr e'"
    then obtain e1 e' where e1: "apply_at k0 f0 e = Inr e1" and r: "apply_all kfs e1 = Inr e'"
      using kf by (auto simp: bind_eq_Inr)
    from e1 have h0: "\<forall>v. map_of e k0 = Some v \<longrightarrow> (\<exists>v'. f0 v = Inr v')"
      using apply_at_returns [of k0 f0 e] by blast
    from r Cons.IH [OF d, of e1]
    have "\<forall>(k, f) \<in> set kfs. \<forall>v. map_of e1 k = Some v \<longrightarrow> (\<exists>v'. f v = Inr v')"
      by blast
    with same [OF e1]
    have "\<forall>(k, f) \<in> set kfs. \<forall>v. map_of e k = Some v \<longrightarrow> (\<exists>v'. f v = Inr v')"
      by fastforce
    with h0 kf show "\<forall>(k, f) \<in> set (kf # kfs). \<forall>v. map_of e k = Some v \<longrightarrow> (\<exists>v'. f v = Inr v')"
      by simp
  next
    assume a: "\<forall>(k, f) \<in> set (kf # kfs). \<forall>v. map_of e k = Some v \<longrightarrow> (\<exists>v'. f v = Inr v')"
    with kf have "\<forall>v. map_of e k0 = Some v \<longrightarrow> (\<exists>v'. f0 v = Inr v')" by simp
    then obtain e1 where e1: "apply_at k0 f0 e = Inr e1"
      using apply_at_returns [of k0 f0 e] by blast
    from a same [OF e1]
    have "\<forall>(k, f) \<in> set kfs. \<forall>v. map_of e1 k = Some v \<longrightarrow> (\<exists>v'. f v = Inr v')"
      by fastforce
    with Cons.IH [OF d, of e1] obtain e' where "apply_all kfs e1 = Inr e'" by blast
    with e1 kf show "\<exists>e'. apply_all (kf # kfs) e = Inr e'" by simp
  qed
qed

lemma apply_all_fixed:
  assumes "\<forall>(k, f) \<in> set kfs. \<forall>v. map_of e k = Some v \<longrightarrow> f v = Inr v"
  shows "apply_all kfs e = Inr e"
  using assms
proof (induction kfs)
  case Nil
  then show ?case by simp
next
  case (Cons kf kfs)
  obtain k0 f0 where kf: "kf = (k0, f0)" by (cases kf)
  from Cons.prems kf have "apply_at k0 f0 e = Inr e"
    by (auto simp: apply_at_def AList.update_triv split: option.splits)
  with Cons kf show ?case by simp
qed

lemma fill_lookup:
  "map_of (fill items e) k = (case map_of e k of None \<Rightarrow> map_of items k | Some v \<Rightarrow> Some v)"
  by (induction items arbitrary: e) (auto simp: AList.update_conv' split: option.splits)

lemma fill_fixed: "\<forall>k \<in> fst ` set items. map_of e k \<noteq> None \<Longrightarrow> fill items e = e"
  by (induction items) auto

lemma getitem_not_dict: "\<not> is_dict v \<Longrightarrow> getitem v k = Inl TypeError"
  by (cases v) simp_all

lemma setitem_not_dict: "\<not> is_dict v \<Longrightarrow> setitem v k x = Inl TypeError"
  by (cases v) simp_all

lemma standardize_dril_not_dict:
  assumes "\<not> is_dict v" and "standardize_dril v = Inr r"
  shows "r = v \<and> py_in (lit ''dril'') v = Inr False"
  using assms
  by (auto simp: standardize_dril_def bind_eq_Inr getitem_not_dict split: if_splits)

lemma standardize_oedeme_not_dict:
  "\<not> is_dict v \<Longrightarrow> standardize_oedeme v = Inr r \<Longrightarrow> r = v"
  by (auto simp: standardize_oedeme_def bind_eq_Inr getitem_not_dict split: if_splits)

lemma standardize_membrane_not_dict:
  "\<not> is_dict v \<Longrightarrow> standardize_membrane field v = Inr r \<Longrightarrow> r = v"
  by (auto simp: standardize_membrane_def bind_eq_Inr getitem_not_dict split: if_splits)

lemma standardize_points_not_dict:
  "\<not> is_dict v \<Longrightarrow> standardize_points v = Inr r \<Longrightarrow> r = v"
  by (auto simp: standardize_points_def bind_eq_Inr getitem_not_dict split: if_splits)

lemma format_epaisseur_not_dict:
  "\<not> is_dict v \<Longrightarrow> format_epaisseur v = Inr r \<Longrightarrow> r = v"
  by (auto simp: format_epaisseur_def bind_eq_Inr getitem_not_dict split: if_splits)

lemma process_eye_not_dict:
  assumes "\<not> is_dict v"
  shows "\<exists>err. process_eye v = Inl err"
proof (cases "process_eye v")
  case (Inl err)
  then show ?thesis by blast
next
  case (Inr r)
  then obtain e1 e2 e3 e4 e5 e6 where
    s1: "standardize_dril v = Inr e1" and s2: "standardize_oedeme e1 = Inr e2" and
    s3: "standardize_membrane (lit ''mle'') e2 = Inr e3" and
    s4: "standardize_membrane (lit ''ze'') e3 = Inr e4" and
    s5: "standardize_points e4 = Inr e5" and s6: "format_epaisseur e5 = Inr e6" and
    s7: "add_missing default_eye e6 = Inr r"
    by (auto simp: process_eye_def bind_eq_Inr)
  from standardize_dril_not_dict [OF assms s1]
  have e1: "e1 = v" and absent: "py_in (lit ''dril'') v = Inr False" by simp_all
  from s2 e1 assms have e2: "e2 = v" using standardize_oedeme_not_dict by blast
  from s3 e2 assms have e3: "e3 = v" using standardize_membrane_not_dict by blast
  from s4 e3 assms have e4: "e4 = v" using standardize_membrane_not_dict by blast
  from s5 e4 assms have e5: "e5 = v" using standardize_points_not_dict by blast
  from s6 e5 assms have e6: "e6 = v" using format_epaisseur_not_dict by blast
  from s7 e6 absent assms have False
    by (simp add: default_eye_def setitem_not_dict)
  then show ?thesis ..
qed

lemma process_eye_Inr_dict:
  assumes "process_eye v = Inr r"
  obtains e e' where "v = JDict e" and "r = JDict (fill default_eye e')"
    and "apply_all eye_rules e = Inr e'"
proof -
  from assms process_eye_not_dict [of v] have "is_dict v" by force
  then obtain e where v: "v = JDict e" by (cases v) simp_all
  with assms obtain e' where "apply_all eye_rules e = Inr e'" "r = JDict (fill default_eye e')"
    by (auto simp: process_eye_dict bind_eq_Inr)
  with v that show thesis by blast
qed

lemma process_eyes_dict:
  "process_eyes (eye # eyes) (JDict d) =
     bind (eye_step eye d) (\<lambda>d'. process_eyes eyes (JDict d'))"
  by (simp add: eye_step_def bind_def split: option.splits sum.splits)

lemma process_gpt_response_dict:
  "process_gpt_response (JDict d) =
     (case map_of d (lit ''error'') of
        Some err \<Rightarrow>
          bind (print_error err) (\<lambda>printed.
            Inr \<lparr>returned = JDict default_structure, response_after = JDict d\<rparr>)
      | None \<Rightarrow>
          bind (eye_step (lit ''left_eye'') d) (\<lambda>d1.
          bind (eye_step (lit ''right_eye'') d1) (\<lambda>d2.
            Inr \<lparr>returned = JDict d2, response_after = JDict d2\<rparr>)))"
  by (auto simp add: process_gpt_response_def process_eyes_dict bind_assoc
      simp del: process_eyes.simps(2) split: option.splits)

lemma process_gpt_response_not_dict:
  assumes "\<not> is_dict x"
  shows "process_gpt_response x = Inl TypeError"
  using assms
  by (cases x)
     (simp_all add: process_gpt_response_def getitem_not_dict setitem_not_dict bind_def)

subsection \<open>When the call returns, and fixed points of the field rules\<close>

lemma status_rule_returns: "(\<exists>v'. status_rule p a v = Inr v') \<longleftrightarrow> has_str_status v"
  by (cases v) (auto simp: status_rule_def standardize_status_dict split: option.splits json.splits)

lemma oedeme_rule_returns:
  "(\<exists>v'. oedeme_rule v = Inr v') \<longleftrightarrow> has_str_status v \<and> has_str_taille v"
  by (cases v)
     (auto simp: oedeme_rule_def standardize_status_dict standardize_taille_dict bind_eq_Inr
        AList.update_conv' split: option.splits json.splits)

lemma membrane_rule_returns: "(\<exists>v'. membrane_rule v = Inr v') \<longleftrightarrow> is_str v"
  by (cases v) (simp_all add: membrane_rule_def)

lemma eye_rules_distinct: "distinct (map fst eye_rules)"
  by (simp add: eye_rules_def)

lemma process_eye_returns: "(\<exists>r. process_eye v = Inr r) \<longleftrightarrow> eye_ok v"
proof (cases v)
  case (JDict e)
  have "(\<exists>r. process_eye v = Inr r) \<longleftrightarrow> (\<exists>e'. apply_all eye_rules e = Inr e')"
    using JDict by (auto simp: process_eye_dict bind_eq_Inr)
  also have "\<dots> \<longleftrightarrow> eye_ok v"
    unfolding apply_all_returns [OF eye_rules_distinct] using JDict
    by (simp add: eye_rules_def field_ok_def status_rule_returns oedeme_rule_returns
        membrane_rule_returns epaisseur_rule_def split: option.splits)
  finally show ?thesis .
qed (use process_eye_not_dict [of v] in auto)

lemma eye_step_returns:
  "(\<exists>d'. eye_step eye d = Inr d') \<longleftrightarrow>
     (case map_of d eye of None \<Rightarrow> True | Some v \<Rightarrow> eye_ok v)"
  by (auto simp: eye_step_def bind_eq_Inr process_eye_returns [symmetric] split: option.splits)

lemma eye_step_lookup:
  assumes "eye_step eye d = Inr d'"
  shows "map_of d' k =
     (if k = eye then (case map_of d eye of None \<Rightarrow> Some (JDict default_eye)
                       | Some v \<Rightarrow> (case process_eye v of Inl err \<Rightarrow> None | Inr v' \<Rightarrow> Some v'))
      else map_of d k)"
  using assms
  by (auto simp: eye_step_def bind_eq_Inr AList.update_conv' split: option.splits)

lemma process_gpt_response_returns:
  "(\<exists>out. process_gpt_response x = Inr out) \<longleftrightarrow> well_shaped x"
proof (cases x)
  case (JDict d)
  let ?L = "case map_of d (lit ''left_eye'') of None \<Rightarrow> True | Some v \<Rightarrow> eye_ok v"
  let ?R = "case map_of d (lit ''right_eye'') of None \<Rightarrow> True | Some v \<Rightarrow> eye_ok v"
  show ?thesis
  proof (cases "map_of d (lit ''error'') = None")
    case False
    with JDict show ?thesis by (auto simp: process_gpt_response_dict bind_eq_Inr)
  next
    case True
    have right: "(\<exists>d2. eye_step (lit ''right_eye'') d1 = Inr d2) \<longleftrightarrow> ?R"
      if "eye_step (lit ''left_eye'') d = Inr d1" for d1
    proof -
      have "map_of d1 (lit ''right_eye'') = map_of d (lit ''right_eye'')"
        by (simp add: eye_step_lookup [OF that])
      then show ?thesis by (simp add: eye_step_returns)
    qed
    have "(\<exists>out. process_gpt_response x = Inr out) \<longleftrightarrow>
          (\<exists>d1. eye_step (lit ''left_eye'') d = Inr d1 \<and>
                (\<exists>d2. eye_step (lit ''right_eye'') d1 = Inr d2))"
      using JDict True by (auto simp: process_gpt_response_dict bind_eq_Inr)
    also have "\<dots> \<longleftrightarrow> (\<exists>d1. eye_step (lit ''left_eye'') d = Inr d1) \<and> ?R"
      using right by blast
    also have "\<dots> \<longleftrightarrow> ?L \<and> ?R"
      by (simp only: eye_step_returns)
    also have "\<dots> \<longleftrightarrow> well_shaped x"
      using JDict True by simp
    finally show ?thesis .
  qed
qed (simp_all add: process_gpt_response_not_dict)

lemma status_value_cases: "status_value p a raw = p \<or> status_value p a raw = a"
  by (auto simp: status_value_def)

lemma status_value_fixed:
  assumes "capitalize p = p" and "capitalize a = a"
  shows "status_value p a p = p" and "status_value p a a = a"
  using assms by (simp_all add: status_value_def)

lemma status_value_idem:
  assumes "capitalize p = p" and "capitalize a = a"
  shows "status_value p a (status_value p a raw) = status_value p a raw"
  using status_value_cases [of p a raw] status_value_fixed [OF assms] by auto

lemma taille_get_idem: "taille_get (lower (taille_get (lower raw))) = taille_get (lower raw)"
proof (cases "map_of taille_mapping (lower raw)")
  case None
  then show ?thesis by (simp add: taille_get_def)
next
  case (Some t)
  then have "t = lit ''petite'' \<or> t = lit ''grande'' \<or> t = lit ''volumineuse''"
    by (auto simp: taille_mapping_def split: if_splits)
  then have "taille_get (lower t) = t"
    by (auto simp: taille_get_def taille_mapping_def lit_def lower_def lower_cp_def)
  with Some show ?thesis by (simp add: taille_get_def)
qed

lemma membrane_value_idem: "membrane_value (membrane_value raw) = membrane_value raw"
  by (simp add: membrane_value_def membrane_labels)

lemma status_rule_idem:
  assumes "capitalize p = p" and "capitalize a = a" and "status_rule p a v = Inr v'"
  shows "status_rule p a v' = Inr v'"
proof (cases v)
  case (JDict sub)
  with assms(3) obtain raw where
    v': "v' = JDict (AList.update (lit ''status'') (JStr (status_value p a raw)) sub)"
    by (auto simp: status_rule_def standardize_status_dict split: option.splits json.splits)
  show ?thesis
    by (simp add: v' status_rule_def standardize_status_dict AList.update_conv'
        status_value_idem [OF assms(1,2)])
qed (use assms(3) in \<open>auto simp: status_rule_def\<close>)

lemma oedeme_rule_idem:
  assumes "oedeme_rule v = Inr v'"
  shows "oedeme_rule v' = Inr v'"
proof (cases v)
  case (JDict sub)
  let ?s = "lit ''status''" and ?t = "lit ''taille''"
  from JDict assms obtain raw where
    raw: "map_of sub ?s = Some (JStr raw)" and
    t: "standardize_taille
          (JDict (AList.update ?s (JStr (status_value Present Absent raw)) sub)) = Inr v'"
    by (auto simp: oedeme_rule_def standardize_status_dict bind_eq_Inr
        split: option.splits json.splits)
  let ?sub1 = "AList.update ?s (JStr (status_value Present Absent raw)) sub"
  have sv: "status_value Present Absent (status_value Present Absent raw) =
            status_value Present Absent raw"
    by (rule status_value_idem) (simp_all add: cap_labels)
  show ?thesis
  proof (cases "map_of sub ?t")
    case None
    with t have v': "v' = JDict ?sub1"
      by (simp add: standardize_taille_dict AList.update_conv')
    show ?thesis
      using None
      by (simp add: v' oedeme_rule_def standardize_status_dict standardize_taille_dict
          AList.update_conv' sv)
  next
    case (Some tv)
    with t obtain traw where
      v': "v' = JDict (AList.update ?t (JStr (taille_get (lower traw))) ?sub1)"
      by (auto simp: standardize_taille_dict AList.update_conv' split: json.splits)
    show ?thesis
      by (simp add: v' oedeme_rule_def standardize_status_dict standardize_taille_dict
          AList.update_conv' AList.update_triv sv taille_get_idem)
  qed
qed (use assms in \<open>auto simp: oedeme_rule_def\<close>)

lemma membrane_rule_idem: "membrane_rule v = Inr v' \<Longrightarrow> membrane_rule v' = Inr v'"
  by (cases v) (auto simp: membrane_rule_def membrane_value_idem)

lemma epaisseur_rule_idem: "epaisseur_rule v = Inr v' \<Longrightarrow> epaisseur_rule v' = Inr v'"
  by (cases "is_str v") (auto simp: epaisseur_rule_def wrap_central_def)

lemma eye_rules_idem:
  assumes "(k, f) \<in> set eye_rules" and "f v = Inr v'"
  shows "f v' = Inr v'"
proof -
  from assms(1) consider
    "f = status_rule Presente Absente" | "f = oedeme_rule" | "f = membrane_rule" |
    "f = status_rule Presents Absents" | "f = epaisseur_rule"
    by (auto simp: eye_rules_def)
  then show ?thesis
  proof cases
    case 1
    with assms(2) show ?thesis by (simp add: status_rule_idem cap_labels)
  next
    case 2
    with assms(2) show ?thesis by (simp add: oedeme_rule_idem)
  next
    case 3
    with assms(2) show ?thesis by (simp add: membrane_rule_idem)
  next
    case 4
    with assms(2) show ?thesis by (simp add: status_rule_idem cap_labels)
  next
    case 5
    with assms(2) show ?thesis by (simp add: epaisseur_rule_idem)
  qed
qed

lemma default_dril_fixed:
  "status_rule Presente Absente
     (JDict [(lit ''status'', JStr Absente), (lit ''extent'', JStr [])]) =
   Inr (JDict [(lit ''status'', JStr Absente), (lit ''extent'', JStr [])])"
  by (simp add: status_rule_def standardize_status_dict status_value_def cap_labels)

lemma default_points_fixed:
  "status_rule Presents Absents
     (JDict [(lit ''status'', JStr Absents), (lit ''nombre'', JStr []),
             (lit ''localisation'', JStr [])]) =
   Inr (JDict [(lit ''status'', JStr Absents), (lit ''nombre'', JStr []),
               (lit ''localisation'', JStr [])])"
  by (simp add: status_rule_def standardize_status_dict status_value_def cap_labels)

lemma taille_get_empty: "taille_get (lower []) = []"
  by (simp add: taille_get_def taille_mapping_def lower_def lit_def)

lemma default_oedeme_fixed:
  "oedeme_rule
     (JDict [(lit ''status'', JStr Absent), (lit ''nb_logette'', JStr []),
             (lit ''taille'', JStr []), (lit ''localisation'', JStr [])]) =
   Inr (JDict [(lit ''status'', JStr Absent), (lit ''nb_logette'', JStr []),
               (lit ''taille'', JStr []), (lit ''localisation'', JStr [])])"
  by (simp add: oedeme_rule_def standardize_status_dict standardize_taille_dict
      status_value_def cap_labels taille_get_empty)

lemma default_membrane_fixed: "membrane_rule (JStr Continue) = Inr (JStr Continue)"
  by (simp add: membrane_rule_def membrane_value_def membrane_labels)

lemma eye_rules_default:
  assumes "(k, f) \<in> set eye_rules" and "map_of default_eye k = Some v"
  shows "f v = Inr v"
proof -
  from assms(1) consider
    "k = lit ''dril''" "f = status_rule Presente Absente" |
    "k = lit ''oedeme''" "f = oedeme_rule" |
    "k = lit ''mle''" "f = membrane_rule" |
    "k = lit ''ze''" "f = membrane_rule" |
    "k = lit ''points_hyperreflectifs''" "f = status_rule Presents Absents" |
    "k = lit ''epaisseur_retinienne''" "f = epaisseur_rule"
    by (auto simp: eye_rules_def)
  then show ?thesis
  proof cases
    case 1
    with assms(2) show ?thesis by (auto simp: default_eye_def default_dril_fixed)
  next
    case 2
    with assms(2) show ?thesis by (auto simp: default_eye_def default_oedeme_fixed)
  next
    case 3
    with assms(2) show ?thesis by (auto simp: default_eye_def default_membrane_fixed)
  next
    case 4
    with assms(2) show ?thesis by (auto simp: default_eye_def default_membrane_fixed)
  next
    case 5
    with assms(2) show ?thesis by (auto simp: default_eye_def default_points_fixed)
  next
    case 6
    with assms(2) show ?thesis by (auto simp: default_eye_def epaisseur_rule_def)
  qed
qed

lemma process_eye_lookup:
  assumes "process_eye (JDict e) = Inr r"
  shows "\<exists>e'. r = JDict e' \<and> (\<forall>k. map_of e' k = field_result k (map_of e k))"
proof -
  from assms obtain e1 where
    e1: "apply_all eye_rules e = Inr e1" and r: "r = JDict (fill default_eye e1)"
    by (auto simp: process_eye_dict bind_eq_Inr)
  have ok: "\<exists>v'. f v = Inr v'" if "map_of eye_rules k = Some f" "map_of e k = Some v" for k f v
  proof -
    from that(1) have "(k, f) \<in> set eye_rules" by (rule map_of_SomeD)
    with e1 that(2) apply_all_returns [OF eye_rules_distinct, of e] show ?thesis by blast
  qed
  have "map_of (fill default_eye e1) k = field_result k (map_of e k)" for k
  proof (cases "map_of e k")
    case None
    then have "map_of e1 k = None"
      by (simp add: apply_all_lookup [OF eye_rules_distinct e1] split: option.splits)
    with None show ?thesis by (simp add: fill_lookup field_result_def)
  next
    case (Some v)
    show ?thesis
    proof (cases "map_of eye_rules k")
      case None
      with Some have "map_of e1 k = Some v"
        by (simp add: apply_all_lookup [OF eye_rules_distinct e1])
      with Some None show ?thesis by (simp add: fill_lookup field_result_def)
    next
      case (Some f)
      with \<open>map_of e k = Some v\<close> ok obtain v' where v': "f v = Inr v'" by blast
      with Some \<open>map_of e k = Some v\<close> have "map_of e1 k = Some v'"
        by (simp add: apply_all_lookup [OF eye_rules_distinct e1])
      with Some \<open>map_of e k = Some v\<close> v' show ?thesis by (simp add: fill_lookup field_result_def)
    qed
  qed
  with r show ?thesis by blast
qed

lemma process_eye_idem:
  assumes "process_eye v = Inr r"
  shows "process_eye r = Inr r"
proof -
  from assms obtain e e1 where v: "v = JDict e" and r: "r = JDict (fill default_eye e1)"
    and e1: "apply_all eye_rules e = Inr e1"
    by (rule process_eye_Inr_dict)
  let ?e2 = "fill default_eye e1"
  have fixed: "f x = Inr x" if kf: "(k, f) \<in> set eye_rules" and x: "map_of ?e2 k = Some x"
    for k f x
  proof -
    from kf have mk: "map_of eye_rules k = Some f"
      using eye_rules_distinct by (simp add: map_of_eq_Some_iff)
    show ?thesis
    proof (cases "map_of e1 k")
      case None
      with x have "map_of default_eye k = Some x" by (simp add: fill_lookup)
      with kf show ?thesis by (rule eye_rules_default)
    next
      case (Some y)
      with x have xy: "x = y" by (simp add: fill_lookup)
      from Some mk obtain v0 where "f v0 = Inr y"
        by (auto simp: apply_all_lookup [OF eye_rules_distinct e1]
            split: option.splits sum.splits)
      with kf xy show ?thesis by (simp add: eye_rules_idem)
    qed
  qed
  have a: "apply_all eye_rules ?e2 = Inr ?e2"
    by (rule apply_all_fixed) (use fixed in blast)
  have "map_of ?e2 k \<noteq> None" if "k \<in> fst ` set default_eye" for k
  proof -
    from that have "map_of default_eye k \<noteq> None" by (simp add: map_of_eq_None_iff)
    then show ?thesis by (simp add: fill_lookup split: option.splits)
  qed
  then have b: "fill default_eye ?e2 = ?e2"
    by (intro fill_fixed) blast
  show ?thesis by (simp add: r process_eye_dict a b)
qed

lemma process_eye_default: "process_eye (JDict default_eye) = Inr (JDict default_eye)"
proof -
  have a: "apply_all eye_rules default_eye = Inr default_eye"
    by (rule apply_all_fixed) (use eye_rules_default in blast)
  have b: "fill default_eye default_eye = default_eye"
    by (rule fill_fixed) (simp add: map_of_eq_None_iff)
  show ?thesis by (simp add: process_eye_dict a b)
qed

lemma eye_step_fixed:
  "map_of d eye = Some v \<Longrightarrow> process_eye v = Inr v \<Longrightarrow> eye_step eye d = Inr d"
  by (simp add: eye_step_def AList.update_triv)

lemma process_gpt_response_lookup:
  assumes "process_gpt_response (JDict d) = Inr out" and "map_of d (lit ''error'') = None"
  shows "\<exists>d2. returned out = JDict d2 \<and> response_after out = JDict d2 \<and>
     (\<forall>k. map_of d2 k =
        (if k = lit ''left_eye'' \<or> k = lit ''right_eye'' then eye_result (map_of d k)
         else map_of d k))"
proof -
  from assms obtain d1 d2 where
    s1: "eye_step (lit ''left_eye'') d = Inr d1" and
    s2: "eye_step (lit ''right_eye'') d1 = Inr d2" and
    out: "out = \<lparr>returned = JDict d2, response_after = JDict d2\<rparr>"
    by (auto simp: process_gpt_response_dict bind_eq_Inr)
  have "map_of d2 k =
       (if k = lit ''left_eye'' \<or> k = lit ''right_eye'' then eye_result (map_of d k)
        else map_of d k)" for k
    by (simp add: eye_step_lookup [OF s2] eye_step_lookup [OF s1] eye_result_def)
  with out show ?thesis by simp
qed

lemma default_structure_lookup:
  "map_of default_structure (lit ''left_eye'') = Some (JDict default_eye)"
  "map_of default_structure (lit ''right_eye'') = Some (JDict default_eye)"
  "map_of default_structure (lit ''error'') = None"
  by (simp_all add: default_structure_def)

lemma process_gpt_response_default:
  "process_gpt_response (JDict default_structure) =
     Inr \<lparr>returned = JDict default_structure, response_after = JDict default_structure\<rparr>"
proof -
  have "eye_step (lit ''left_eye'') default_structure = Inr default_structure"
    using default_structure_lookup(1) process_eye_default by (rule eye_step_fixed)
  moreover have "eye_step (lit ''right_eye'') default_structure = Inr default_structure"
    using default_structure_lookup(2) process_eye_default by (rule eye_step_fixed)
  ultimately show ?thesis
    by (simp add: process_gpt_response_dict default_structure_lookup(3))
qed

lemma str_contains_skip:
  "c \<notin> set pre \<Longrightarrow> str_contains (c # t) (pre @ rest) = str_contains (c # t) rest"
  by (induction pre) simp_all

lemma lower_cp_upper:
  "65 \<le> u \<and> u \<le> 90 \<or> 192 \<le> u \<and> u \<le> 222 \<and> u \<noteq> 215 \<Longrightarrow> lower_cp u = u + 32"
  by (auto simp: lower_cp_def)

lemma lower_title_cp:
  "map lower_cp (title_cp c) = [lower_cp c] \<or>
   (112 \<notin> set (map lower_cp (title_cp c)) \<and> lower_cp c \<noteq> 112)"
proof -
  consider "97 \<le> c \<and> c \<le> 122 \<or> 224 \<le> c \<and> c \<le> 254 \<and> c \<noteq> 247" | "c = 223" | "c = 255"
    | "c = 181"
    | "\<not> (97 \<le> c \<and> c \<le> 122) \<and> \<not> (224 \<le> c \<and> c \<le> 254 \<and> c \<noteq> 247) \<and> c \<noteq> 223 \<and>
       c \<noteq> 255 \<and> c \<noteq> 181"
    by blast
  then show ?thesis
  proof cases
    case 1
    define u where "u = c - 32"
    with 1 have c: "c = u + 32" by arith
    with 1 have u: "65 \<le> u \<and> u \<le> 90 \<or> 192 \<le> u \<and> u \<le> 222 \<and> u \<noteq> 215" by arith
    from 1 have "title_cp c = [c - 32]" by (auto simp: title_cp_def)
    then have t: "title_cp c = [u]" by (simp only: u_def)
    from 1 have "lower_cp c = c" by (auto simp: lower_cp_def)
    with t lower_cp_upper [OF u] c show ?thesis by simp
  next
    case 2
    then show ?thesis by (simp add: title_cp_def lower_cp_def)
  next
    case 3
    then show ?thesis by (simp add: title_cp_def lower_cp_def)
  next
    case 4
    then show ?thesis by (simp add: title_cp_def lower_cp_def)
  next
    case 5
    then have "title_cp c = [c]" by (auto simp: title_cp_def)
    then show ?thesis by simp
  qed
qed

lemma contains_present_capitalize:
  "str_contains (lit ''present'') (lower (capitalize raw)) =
   str_contains (lit ''present'') (lower raw)"
proof (cases raw)
  case Nil
  then show ?thesis by simp
next
  case (Cons c cs)
  obtain t where p: "lit ''present'' = 112 # t" by (simp add: lit_def)
  have l: "lower (capitalize raw) = map lower_cp (title_cp c) @ lower cs"
    using Cons by (simp add: lower_def lower_cp_idem)
  have r: "lower raw = [lower_cp c] @ lower cs"
    using Cons by (simp add: lower_def)
  from lower_title_cp [of c] show ?thesis
  proof
    assume "map lower_cp (title_cp c) = [lower_cp c]"
    with l r show ?thesis by simp
  next
    assume a: "112 \<notin> set (map lower_cp (title_cp c)) \<and> lower_cp c \<noteq> 112"
    then have "str_contains (112 # t) (map lower_cp (title_cp c) @ lower cs) =
               str_contains (112 # t) (lower cs)"
      by (intro str_contains_skip) simp
    moreover from a have "str_contains (112 # t) ([lower_cp c] @ lower cs) =
               str_contains (112 # t) (lower cs)"
      by (intro str_contains_skip) simp
    ultimately show ?thesis by (simp only: l r p)
  qed
qed

lemma status_value_alt:
  "status_value p a raw =
     (if capitalize raw = p then p
      else if capitalize raw = a then a
      else if str_contains (lit ''present'') (lower raw) then p
      else a)"
  by (simp add: status_value_def contains_present_capitalize)

lemma field_result_None: "field_result k None = map_of default_eye k"
  by (simp add: field_result_def)

lemma field_result_rules:
  "field_result (lit ''dril'') (Some v) =
     (case status_rule Presente Absente v of Inl err \<Rightarrow> None | Inr v' \<Rightarrow> Some v')"
  "field_result (lit ''oedeme'') (Some v) =
     (case oedeme_rule v of Inl err \<Rightarrow> None | Inr v' \<Rightarrow> Some v')"
  "field_result (lit ''mle'') (Some v) =
     (case membrane_rule v of Inl err \<Rightarrow> None | Inr v' \<Rightarrow> Some v')"
  "field_result (lit ''ze'') (Some v) =
     (case membrane_rule v of Inl err \<Rightarrow> None | Inr v' \<Rightarrow> Some v')"
  "field_result (lit ''points_hyperreflectifs'') (Some v) =
     (case status_rule Presents Absents v of Inl err \<Rightarrow> None | Inr v' \<Rightarrow> Some v')"
  "field_result (lit ''epaisseur_retinienne'') (Some v) =
     Some (if is_str v then wrap_central v else v)"
  by (simp_all add: field_result_def eye_rules_def epaisseur_rule_def)


lemma field_result_present:
  assumes "eye_ok (JDict e)" and "map_of e k = Some v"
  shows "field_result k (Some v) \<noteq> None"
proof (cases "map_of eye_rules k")
  case None
  then show ?thesis by (simp add: field_result_def)
next
  case (Some f)
  then have kf: "(k, f) \<in> set eye_rules" by (rule map_of_SomeD)
  from assms(1) obtain r where "process_eye (JDict e) = Inr r"
    using process_eye_returns [of "JDict e"] by blast
  then obtain e1 where "apply_all eye_rules e = Inr e1"
    by (auto simp: process_eye_dict bind_eq_Inr)
  with kf assms(2) apply_all_returns [OF eye_rules_distinct, of e]
  obtain v' where "f v = Inr v'" by blast
  with Some show ?thesis by (simp add: field_result_def)
qed

lemma returned_eye_present:
  assumes "process_gpt_response (JDict d) = Inr out"
    and "map_of d (lit ''error'') = None"
    and "eye = lit ''left_eye'' \<or> eye = lit ''right_eye''"
    and "map_of d eye = Some v"
  shows "\<exists>e e'. v = JDict e \<and> eye_ok v \<and> process_eye v = Inr (JDict e') \<and>
           at_path (returned out) [eye] = Some (JDict e') \<and>
           (\<forall>k. map_of e' k = field_result k (map_of e k))"
proof -
  from process_gpt_response_lookup [OF assms(1,2)] obtain d2 where
    r: "returned out = JDict d2" and
    look: "\<And>k. map_of d2 k =
        (if k = lit ''left_eye'' \<or> k = lit ''right_eye'' then eye_result (map_of d k)
         else map_of d k)"
    by blast
  from assms(1) have "well_shaped (JDict d)"
    using process_gpt_response_returns [of "JDict d"] by blast
  with assms(2,3,4) have ok: "eye_ok v" by auto
  then obtain r' where r': "process_eye v = Inr r'"
    using process_eye_returns [of v] by blast
  from ok obtain e where v: "v = JDict e" by (cases v) simp_all
  from process_eye_lookup [of e r'] r' v obtain e' where
    e': "r' = JDict e'" "\<forall>k. map_of e' k = field_result k (map_of e k)"
    by blast
  from assms(3,4) r' have "map_of d2 eye = Some r'"
    by (simp add: look eye_result_def)
  with r e' v ok r' show ?thesis by simp
qed

lemma returned_eye_absent:
  assumes "process_gpt_response (JDict d) = Inr out"
    and "eye = lit ''left_eye'' \<or> eye = lit ''right_eye''"
    and "map_of d eye = None"
  shows "at_path (returned out) [eye] = Some (JDict default_eye)"
proof (cases "map_of d (lit ''error'') = None")
  case True
  from process_gpt_response_lookup [OF assms(1) True] obtain d2 where
    r: "returned out = JDict d2" and
    look: "\<And>k. map_of d2 k =
        (if k = lit ''left_eye'' \<or> k = lit ''right_eye'' then eye_result (map_of d k)
         else map_of d k)"
    by blast
  from assms(2,3) have "map_of d2 eye = Some (JDict default_eye)"
    by (simp add: look eye_result_def)
  with r show ?thesis by simp
next
  case False
  with assms(1) have "returned out = JDict default_structure"
    by (auto simp: process_gpt_response_dict bind_eq_Inr)
  with assms(2) show ?thesis by (auto simp: default_structure_lookup)
qed

lemma returned_marked:
  assumes "process_gpt_response (JDict d) = Inr out" and "map_of d (lit ''error'') \<noteq> None"
  shows "returned out = JDict default_structure" and "response_after out = JDict d"
  using assms by (auto simp: process_gpt_response_dict bind_eq_Inr)

lemma returns_dict:
  assumes "process_gpt_response x = Inr out"
  obtains d where "x = JDict d"
proof -
  from assms process_gpt_response_not_dict [of x] have "is_dict x" by force
  then show thesis using that by (cases x) simp_all
qed



subsection \<open>Single fields of the returned value\<close>

lemma at_path_step: "at_path v [k] = Some w \<Longrightarrow> at_path v (k # ks) = at_path w ks"
  by (cases v) (auto split: option.splits)

lemma returned_field:
  assumes "process_gpt_response (JDict d) = Inr out"
    and "map_of d (lit ''error'') = None"
    and "eye = lit ''left_eye'' \<or> eye = lit ''right_eye''"
    and "map_of d eye = Some (JDict e)"
    and "map_of e k = Some v"
  shows "\<exists>v'. field_result k (Some v) = Some v' \<and>
           at_path (returned out) (eye # k # path) = at_path v' path"
proof -
  from returned_eye_present [OF assms(1-4)] obtain e' where
    ok: "eye_ok (JDict e)" and
    at: "at_path (returned out) [eye] = Some (JDict e')" and
    look: "\<forall>k. map_of e' k = field_result k (map_of e k)"
    by auto
  from field_result_present [OF ok assms(5)] obtain v' where
    v': "field_result k (Some v) = Some v'" by blast
  with look assms(5) have "map_of e' k = Some v'" by simp
  then have "at_path (JDict e') (k # path) = at_path v' path" by simp
  with at_path_step [OF at, of "k # path"] v' show ?thesis by simp
qed

lemma status_rule_result:
  assumes "status_rule p a (JDict sub) = Inr v'"
    and "map_of sub (lit ''status'') = Some (JStr raw)"
  shows "at_path v' [lit ''status''] = Some (JStr (status_value p a raw))"
  using assms
  by (auto simp: status_rule_def standardize_status_dict AList.update_conv')

lemma oedeme_rule_result:
  assumes "oedeme_rule (JDict sub) = Inr v'"
  shows "\<exists>raw. map_of sub (lit ''status'') = Some (JStr raw) \<and>
     at_path v' [lit ''status''] = Some (JStr (status_value Present Absent raw)) \<and>
     (\<forall>t. map_of sub (lit ''taille'') = Some (JStr t) \<longrightarrow>
        at_path v' [lit ''taille''] = Some (JStr (taille_get (lower t))))"
proof -
  from assms obtain raw where
    raw: "map_of sub (lit ''status'') = Some (JStr raw)" and
    t: "standardize_taille
          (JDict (AList.update (lit ''status'') (JStr (status_value Present Absent raw)) sub)) =
        Inr v'"
    by (auto simp: oedeme_rule_def standardize_status_dict bind_eq_Inr
        split: option.splits json.splits)
  from t have "at_path v' [lit ''status''] = Some (JStr (status_value Present Absent raw))"
    by (auto simp: standardize_taille_dict AList.update_conv' split: option.splits json.splits)
  moreover from t have "at_path v' [lit ''taille''] = Some (JStr (taille_get (lower x)))"
    if "map_of sub (lit ''taille'') = Some (JStr x)" for x
    using that
    by (auto simp: standardize_taille_dict AList.update_conv' split: option.splits json.splits)
  ultimately show ?thesis using raw by blast
qed


lemma status_rule_closed:
  assumes "status_rule p a v = Inr (JDict sub')"
  shows "map_of sub' (lit ''status'') = Some (JStr p) \<or>
         map_of sub' (lit ''status'') = Some (JStr a)"
proof (cases v)
  case (JDict sub)
  with assms obtain raw where "map_of sub (lit ''status'') = Some (JStr raw)"
    using status_rule_returns [of p a v] by (auto split: option.splits json.splits)
  from status_rule_result [OF assms [unfolded JDict] this] status_value_cases [of p a raw]
  show ?thesis by (auto split: option.splits)
qed (use assms in \<open>auto simp: status_rule_def\<close>)

lemma oedeme_rule_closed:
  assumes "oedeme_rule v = Inr (JDict sub')"
  shows "map_of sub' (lit ''status'') = Some (JStr Present) \<or>
         map_of sub' (lit ''status'') = Some (JStr Absent)"
proof (cases v)
  case (JDict sub)
  from oedeme_rule_result [OF assms [unfolded JDict]] obtain raw where
    "at_path (JDict sub') [lit ''status''] = Some (JStr (status_value Present Absent raw))"
    by blast
  with status_value_cases [of Present Absent raw]
  show ?thesis by (auto split: option.splits)
qed (use assms in \<open>auto simp: oedeme_rule_def\<close>)

lemma default_eye_complete:
  "(\<forall>k \<in> fst ` set default_eye. map_of default_eye k \<noteq> None) \<and> statuses_closed default_eye"
proof
  show "\<forall>k \<in> fst ` set default_eye. map_of default_eye k \<noteq> None"
    by (simp add: map_of_eq_None_iff)
  show "statuses_closed default_eye"
    by (simp add: statuses_closed_def default_eye_def)
qed

lemma processed_eye_complete:
  assumes ok: "eye_ok (JDict e)" and look: "\<forall>k. map_of e' k = field_result k (map_of e k)"
  shows "(\<forall>k \<in> fst ` set default_eye. map_of e' k \<noteq> None) \<and> statuses_closed e'"
proof
  show "\<forall>k \<in> fst ` set default_eye. map_of e' k \<noteq> None"
  proof
    fix k assume k: "k \<in> fst ` set default_eye"
    show "map_of e' k \<noteq> None"
    proof (cases "map_of e k")
      case None
      from k have "map_of default_eye k \<noteq> None" by (simp add: map_of_eq_None_iff)
      with None show ?thesis by (simp add: look field_result_None)
    next
      case (Some v)
      with field_result_present [OF ok Some] show ?thesis by (simp add: look)
    qed
  qed
next
  have d: "map_of sub' (lit ''status'') = Some (JStr Presente) \<or>
           map_of sub' (lit ''status'') = Some (JStr Absente)"
    if "map_of e' (lit ''dril'') = Some (JDict sub')" for sub'
  proof (cases "map_of e (lit ''dril'')")
    case None
    with that look show ?thesis by (auto simp: field_result_None default_eye_def)
  next
    case (Some v)
    with that look have "status_rule Presente Absente v = Inr (JDict sub')"
      by (simp add: field_result_rules split: sum.splits)
    then show ?thesis by (rule status_rule_closed)
  qed
  have o: "map_of sub' (lit ''status'') = Some (JStr Present) \<or>
           map_of sub' (lit ''status'') = Some (JStr Absent)"
    if "map_of e' (lit ''oedeme'') = Some (JDict sub')" for sub'
  proof (cases "map_of e (lit ''oedeme'')")
    case None
    with that look show ?thesis by (auto simp: field_result_None default_eye_def)
  next
    case (Some v)
    with that look have "oedeme_rule v = Inr (JDict sub')"
      by (simp add: field_result_rules split: sum.splits)
    then show ?thesis by (rule oedeme_rule_closed)
  qed
  have p: "map_of sub' (lit ''status'') = Some (JStr Presents) \<or>
           map_of sub' (lit ''status'') = Some (JStr Absents)"
    if "map_of e' (lit ''points_hyperreflectifs'') = Some (JDict sub')" for sub'
  proof (cases "map_of e (lit ''points_hyperreflectifs'')")
    case None
    with that look show ?thesis by (auto simp: field_result_None default_eye_def)
  next
    case (Some v)
    with that look have "status_rule Presents Absents v = Inr (JDict sub')"
      by (simp add: field_result_rules split: sum.splits)
    then show ?thesis by (rule status_rule_closed)
  qed
  from d o p show "statuses_closed e'" unfolding statuses_closed_def by blast
qed

subsection \<open>Evaluating the function on a concrete input\<close>

lemmas eval_defs = process_gpt_response_def process_eye_def standardize_status_def
  standardize_dril_def standardize_taille_def standardize_oedeme_def standardize_membrane_def
  standardize_points_def format_epaisseur_def default_structure_def default_eye_def
  taille_get_def taille_mapping_def label_defs lower_def lower_cp_def title_cp_def lit_def
  returned_at_def surrogate_def

section \<open>The claims\<close>

subsection \<open>C1: which calls return\<close>

text \<open>
  C1 as stated in the specification (the call returns for every decoded JSON input)
  fails: a left eye whose \<open>dril\<close> dict has no \<open>status\<close> makes line 269 raise
  \<open>KeyError\<close>, and nothing in \<open>process_gpt_response\<close> catches it.
\<close>

theorem never_raises_counterexample:
  "process_gpt_response
     (JDict [(lit ''left_eye'',
              JDict [(lit ''dril'', JDict [(lit ''extent'', JStr (lit ''fovea''))])])]) =
   Inl KeyError"
  by (simp add: eval_defs)

text \<open>
  C1, amended. \<open>process_gpt_response\<close> returns on every input that is \<open>well_shaped\<close>:
  a dict with the key \<open>"error"\<close> whose value line 243 can print, or a dict without that
  key in which every eye that is present is a dict whose \<open>dril\<close>, \<open>oedeme\<close> and
  \<open>points_hyperreflectifs\<close> entries, when they are dicts, hold a str under \<open>status\<close> (and
  \<open>oedeme\<close> a str under \<open>taille\<close> when it has that key) and whose \<open>mle\<close> and \<open>ze\<close>
  entries, when present, are strs. On an input without the key \<open>"error"\<close> it returns
  on these inputs only. When it returns, the value returned holds a dict under
  \<open>left_eye\<close> and a dict under \<open>right_eye\<close>.
\<close>

theorem returns_exactly_when_well_shaped:
  "(well_shaped x \<longrightarrow> (\<exists>out. process_gpt_response x = Inr out)) \<and>
   (at_path x [lit ''error''] = None \<longrightarrow>
      (\<exists>out. process_gpt_response x = Inr out) \<longrightarrow> well_shaped x) \<and>
   (\<forall>out. process_gpt_response x = Inr out \<longrightarrow>
      (\<exists>l r. at_path (returned out) [lit ''left_eye''] = Some (JDict l) \<and>
             at_path (returned out) [lit ''right_eye''] = Some (JDict r)))"
proof (intro conjI allI impI)
  assume "well_shaped x"
  then show "\<exists>out. process_gpt_response x = Inr out"
    by (simp add: process_gpt_response_returns)
next
  assume "\<exists>out. process_gpt_response x = Inr out"
  then show "well_shaped x"
    by (simp add: process_gpt_response_returns)
next
  fix out
  assume ret: "process_gpt_response x = Inr out"
  then obtain d where x: "x = JDict d" by (rule returns_dict)
  have "\<exists>e. at_path (returned out) [eye] = Some (JDict e)"
    if eye: "eye = lit ''left_eye'' \<or> eye = lit ''right_eye''" for eye
  proof (cases "map_of d eye")
    case None
    with ret x eye show ?thesis by (auto dest: returned_eye_absent)
  next
    case (Some v)
    show ?thesis
    proof (cases "map_of d (lit ''error'') = None")
      case True
      from returned_eye_present [OF ret [unfolded x] True eye Some] show ?thesis by blast
    next
      case False
      with ret x have "returned out = JDict default_structure" by (simp add: returned_marked)
      with eye show ?thesis by (auto simp: default_structure_lookup)
    qed
  qed
  then show "\<exists>l r. at_path (returned out) [lit ''left_eye''] = Some (JDict l) \<and>
             at_path (returned out) [lit ''right_eye''] = Some (JDict r)"
    by blast
qed

theorem returns_exactly_when_well_shaped_witness:
  "well_shaped (JDict [(lit ''left_eye'', JDict [(lit ''mle'', JStr (lit ''ligne continue''))])]) \<and>
   at_path (JDict [(lit ''left_eye'', JDict [(lit ''mle'', JStr (lit ''ligne continue''))])])
     [lit ''error''] = None \<and>
   (\<exists>out. process_gpt_response
       (JDict [(lit ''left_eye'', JDict [(lit ''mle'', JStr (lit ''ligne continue''))])]) = Inr out \<and>
      (\<exists>l r. at_path (returned out) [lit ''left_eye''] = Some (JDict l) \<and>
             at_path (returned out) [lit ''right_eye''] = Some (JDict r)))"
proof -
  have w: "well_shaped
     (JDict [(lit ''left_eye'', JDict [(lit ''mle'', JStr (lit ''ligne continue''))])])"
    by (simp add: field_ok_def)
  have n: "at_path (JDict [(lit ''left_eye'', JDict [(lit ''mle'', JStr (lit ''ligne continue''))])])
     [lit ''error''] = None"
    by simp
  from w n returns_exactly_when_well_shaped
    [of "JDict [(lit ''left_eye'', JDict [(lit ''mle'', JStr (lit ''ligne continue''))])]"]
  show ?thesis by blast
qed

subsection \<open>C2: completeness of the returned records\<close>

text \<open>
  C2 as stated in the specification (every nested sub-field present, every enum field
  in its enum) fails. On a left eye whose \<open>dril\<close> is a dict with the status \<open>Presente\<close> alone and whose \<open>mle\<close> is
  \<open>"illisible"\<close> the call returns a \<open>dril\<close> record without \<open>extent\<close>, a sub-field the
  default structure has, and an \<open>mle\<close> that is none of the three membrane labels: lines
  317-319 add missing keys of the eye only, and lines 289-294 leave a value without a
  token as it is.
\<close>

theorem schema_complete_counterexample:
  "returned_at
     (process_gpt_response
        (JDict [(lit ''left_eye'',
                 JDict [(lit ''dril'', JDict [(lit ''status'', JStr Presente)]),
                        (lit ''mle'', JStr (lit ''illisible''))])]))
     [lit ''left_eye'', lit ''dril''] = Some (JDict [(lit ''status'', JStr Presente)]) \<and>
   at_path (JDict [(lit ''status'', JStr Presente)]) [lit ''extent''] = None \<and>
   at_path (JDict default_structure) [lit ''left_eye'', lit ''dril'', lit ''extent''] =
     Some (JStr []) \<and>
   returned_at
     (process_gpt_response
        (JDict [(lit ''left_eye'',
                 JDict [(lit ''dril'', JDict [(lit ''status'', JStr Presente)]),
                        (lit ''mle'', JStr (lit ''illisible''))])]))
     [lit ''left_eye'', lit ''mle''] = Some (JStr (lit ''illisible'')) \<and>
   lit ''illisible'' \<notin> {Continue, Partiellement_interrompue, Completement_interrompue}"
  by (simp add: eval_defs)

text \<open>
  C2, amended. Whenever \<open>process_gpt_response\<close> returns, each of the two eye records is
  a dict that has every top-level key of the default eye record, and each of its
  \<open>dril\<close>, \<open>oedeme\<close> and \<open>points_hyperreflectifs\<close> entries that is a dict holds one of the
  two labels of that field under \<open>status\<close>.
\<close>

theorem top_level_fields_complete:
  assumes "process_gpt_response x = Inr out"
    and "eye = lit ''left_eye'' \<or> eye = lit ''right_eye''"
  shows "\<exists>e. at_path (returned out) [eye] = Some (JDict e) \<and>
           (\<forall>k \<in> fst ` set default_eye. map_of e k \<noteq> None) \<and> statuses_closed e"
proof -
  from assms(1) obtain d where x: "x = JDict d" by (rule returns_dict)
  note ret = assms(1) [unfolded x]
  show ?thesis
  proof (cases "map_of d (lit ''error'') = None")
    case False
    with ret have "returned out = JDict default_structure" by (simp add: returned_marked)
    with assms(2) have "at_path (returned out) [eye] = Some (JDict default_eye)"
      by (auto simp: default_structure_lookup)
    with default_eye_complete show ?thesis by blast
  next
    case True
    show ?thesis
    proof (cases "map_of d eye")
      case None
      from returned_eye_absent [OF ret assms(2) None] default_eye_complete
      show ?thesis by blast
    next
      case (Some v)
      from returned_eye_present [OF ret True assms(2) Some] obtain e e' where
        "v = JDict e" "eye_ok v" "at_path (returned out) [eye] = Some (JDict e')"
        "\<forall>k. map_of e' k = field_result k (map_of e k)"
        by blast
      with processed_eye_complete [of e e'] show ?thesis by blast
    qed
  qed
qed

theorem top_level_fields_complete_witness:
  "\<exists>out e. process_gpt_response
       (JDict [(lit ''left_eye'',
                JDict [(lit ''dril'', JDict [(lit ''status'', JStr (lit ''absente''))])])]) =
       Inr out \<and>
     at_path (returned out) [lit ''left_eye''] = Some (JDict e) \<and>
     map_of e (lit ''decollement'') \<noteq> None \<and> statuses_closed e"
proof -
  let ?d = "[(lit ''left_eye'',
              JDict [(lit ''dril'', JDict [(lit ''status'', JStr (lit ''absente''))])])]"
  have "well_shaped (JDict ?d)" by (simp add: field_ok_def)
  then obtain out where out: "process_gpt_response (JDict ?d) = Inr out"
    using process_gpt_response_returns by blast
  from top_level_fields_complete [OF out, of "lit ''left_eye''"] obtain e where
    e: "at_path (returned out) [lit ''left_eye''] = Some (JDict e)"
      "\<forall>k \<in> fst ` set default_eye. map_of e k \<noteq> None" "statuses_closed e"
    by blast
  have "lit ''decollement'' \<in> fst ` set default_eye" by (simp add: default_eye_def)
  with e(2) have "map_of e (lit ''decollement'') \<noteq> None" by blast
  with out e show ?thesis by blast
qed

subsection \<open>C3: the error marker\<close>

text \<open>
  C3. For an input dict that has the key \<open>"error"\<close>, \<open>process_gpt_response\<close> is to
  return the default structure for both eyes, whatever else the dict holds. The source
  does so whenever line 243 can print the error value, and then leaves the input as it
  was (first part). It does not when the error value is a str that holds a surrogate
  code point: called on the dict whose only entry is \<open>error\<close> with the one-character
  str U+D800, line 243 raises \<open>UnicodeEncodeError\<close> and line 244 is never reached
  (second part).
\<close>

theorem error_marker_short_circuit:
  "(map_of d (lit ''error'') = Some err \<longrightarrow> print_error err = Inr () \<longrightarrow>
      process_gpt_response (JDict d) =
        Inr \<lparr>returned = JDict default_structure, response_after = JDict d\<rparr>) \<and>
   process_gpt_response (JDict [(lit ''error'', JStr [55296])]) = Inl UnicodeEncodeError"
proof (intro conjI impI)
  assume "map_of d (lit ''error'') = Some err" and printed: "print_error err = Inr ()"
  then have "py_in (lit ''error'') (JDict d) = Inr True"
    and "getitem (JDict d) (lit ''error'') = Inr err"
    by simp_all
  with printed show "process_gpt_response (JDict d) =
      Inr \<lparr>returned = JDict default_structure, response_after = JDict d\<rparr>"
    by (simp add: process_gpt_response_def)
next
  have "print_error (JStr [55296]) = Inl UnicodeEncodeError"
    by (simp add: surrogate_def)
  then show "process_gpt_response (JDict [(lit ''error'', JStr [55296])]) =
      Inl UnicodeEncodeError"
    by (simp add: process_gpt_response_def)
qed

theorem error_marker_short_circuit_witness:
  "map_of [(lit ''error'', JStr (lit ''Expecting value'')),
           (lit ''left_eye'', JDict [(lit ''mle'', JInt 3)])] (lit ''error'') =
     Some (JStr (lit ''Expecting value'')) \<and>
   print_error (JStr (lit ''Expecting value'')) = Inr () \<and>
   process_gpt_response
     (JDict [(lit ''error'', JStr (lit ''Expecting value'')),
             (lit ''left_eye'', JDict [(lit ''mle'', JInt 3)])]) =
     Inr \<lparr>returned = JDict default_structure,
          response_after =
            JDict [(lit ''error'', JStr (lit ''Expecting value'')),
                   (lit ''left_eye'', JDict [(lit ''mle'', JInt 3)])]\<rparr>"
proof -
  have m: "map_of [(lit ''error'', JStr (lit ''Expecting value'')),
           (lit ''left_eye'', JDict [(lit ''mle'', JInt 3)])] (lit ''error'') =
     Some (JStr (lit ''Expecting value''))"
    by simp
  have p: "print_error (JStr (lit ''Expecting value'')) = Inr ()"
    by (simp add: lit_def surrogate_def)
  from error_marker_short_circuit
    [of "[(lit ''error'', JStr (lit ''Expecting value'')),
          (lit ''left_eye'', JDict [(lit ''mle'', JInt 3)])]"
        "JStr (lit ''Expecting value'')"] m p
  show ?thesis by blast
qed

subsection \<open>C4: the status fields\<close>

text \<open>
  C4 as stated in the specification (the raw status is trimmed before it is matched
  against the labels) fails. The label \<open>Presente\<close> with a space in front is the label once
  trimmed, so the specification gives \<open>Presente\<close>; the source
  does not trim, the capitalized string is not a label and does not contain \<open>present\<close>
  (its third letter is e acute), and the result is \<open>Absente\<close>.
\<close>

theorem status_trimmed_counterexample:
  "returned_at
     (process_gpt_response
        (JDict [(lit ''left_eye'',
                 JDict [(lit ''dril'', JDict [(lit ''status'', JStr (32 # Presente))])])]))
     [lit ''left_eye'', lit ''dril'', lit ''status''] = Some (JStr Absente) \<and>
   spec_status Presente Absente (32 # Presente) = Presente \<and>
   Absente \<noteq> Presente"
  by (simp add: eval_defs spec_status_def strip_def is_space_def)

text \<open>
  C4, amended. On an input dict without the error marker on which the call returns,
  for an eye that is a dict whose \<open>dril\<close>, \<open>oedeme\<close> or \<open>points_hyperreflectifs\<close> entry
  is a dict with a str \<open>status\<close>: the returned status is the label that the capitalized
  raw string equals (first character in title case, the rest in lower case, nothing
  trimmed); otherwise it is the Present label if the lower-cased raw string contains
  \<open>present\<close>, and the Absent label if not. So it is always one of the two labels.
\<close>

theorem status_normalized:
  assumes "process_gpt_response (JDict d) = Inr out"
    and "map_of d (lit ''error'') = None"
    and "eye = lit ''left_eye'' \<or> eye = lit ''right_eye''"
    and "map_of d eye = Some (JDict e)"
    and "(key, present, absent) \<in>
           {(lit ''dril'', Presente, Absente), (lit ''oedeme'', Present, Absent),
            (lit ''points_hyperreflectifs'', Presents, Absents)}"
    and "map_of e key = Some (JDict sub)"
    and "map_of sub (lit ''status'') = Some (JStr raw)"
  shows "at_path (returned out) [eye, key, lit ''status''] =
           Some (JStr (if capitalize raw = present then present
                       else if capitalize raw = absent then absent
                       else if str_contains (lit ''present'') (lower raw) then present
                       else absent))"
proof -
  from returned_field [OF assms(1-4,6), of "[lit ''status'']"] obtain v' where
    v': "field_result key (Some (JDict sub)) = Some v'" and
    at: "at_path (returned out) [eye, key, lit ''status''] = at_path v' [lit ''status'']"
    by blast
  from assms(5) consider
    "key = lit ''dril''" "present = Presente" "absent = Absente" |
    "key = lit ''oedeme''" "present = Present" "absent = Absent" |
    "key = lit ''points_hyperreflectifs''" "present = Presents" "absent = Absents"
    by auto
  then have "at_path v' [lit ''status''] = Some (JStr (status_value present absent raw))"
  proof cases
    case 1
    with v' have "status_rule Presente Absente (JDict sub) = Inr v'"
      by (simp add: field_result_rules split: sum.splits)
    from status_rule_result [OF this assms(7)] 1 show ?thesis by simp
  next
    case 2
    with v' have "oedeme_rule (JDict sub) = Inr v'"
      by (simp add: field_result_rules split: sum.splits)
    from oedeme_rule_result [OF this] assms(7) 2 show ?thesis by auto
  next
    case 3
    with v' have "status_rule Presents Absents (JDict sub) = Inr v'"
      by (simp add: field_result_rules split: sum.splits)
    from status_rule_result [OF this assms(7)] 3 show ?thesis by simp
  qed
  with at show ?thesis by (simp only: status_value_alt)
qed

theorem status_normalized_witness:
  "returned_at
     (process_gpt_response
        (JDict [(lit ''right_eye'',
                 JDict [(lit ''oedeme'', JDict [(lit ''status'', JStr (lit ''Clearly PRESENT''))])])]))
     [lit ''right_eye'', lit ''oedeme'', lit ''status''] = Some (JStr Present)"
proof -
  let ?sub = "[(lit ''status'', JStr (lit ''Clearly PRESENT''))]"
  let ?e = "[(lit ''oedeme'', JDict ?sub)]"
  let ?d = "[(lit ''right_eye'', JDict ?e)]"
  have "well_shaped (JDict ?d)" by (simp add: field_ok_def)
  then obtain out where out: "process_gpt_response (JDict ?d) = Inr out"
    using process_gpt_response_returns by blast
  have "at_path (returned out) [lit ''right_eye'', lit ''oedeme'', lit ''status''] =
          Some (JStr (if capitalize (lit ''Clearly PRESENT'') = Present then Present
                      else if capitalize (lit ''Clearly PRESENT'') = Absent then Absent
                      else if str_contains (lit ''present'') (lower (lit ''Clearly PRESENT''))
                      then Present else Absent))"
    by (rule status_normalized [OF out, where e = ?e and sub = ?sub]) simp_all
  also have "\<dots> = Some (JStr Present)"
    by (simp add: label_defs lit_def lower_def lower_cp_def title_cp_def)
  finally show ?thesis by (simp add: out returned_at_def)
qed

subsection \<open>C5: the cyst size\<close>




subsection \<open>C6: the membrane fields\<close>

text \<open>
  C6 as stated in the specification (the second token is \<open>partial\<close>) fails: the source
  tests for \<open>partiel\<close> (line 291), so \<open>"partially interrupted"\<close> is left as it is.
\<close>

theorem membrane_token_counterexample:
  "returned_at
     (process_gpt_response
        (JDict [(lit ''left_eye'', JDict [(lit ''mle'', JStr (lit ''partially interrupted''))])]))
     [lit ''left_eye'', lit ''mle''] = Some (JStr (lit ''partially interrupted'')) \<and>
   spec_membrane (lit ''partially interrupted'') = Partiellement_interrompue \<and>
   lit ''partially interrupted'' \<noteq> Partiellement_interrompue"
  by (simp add: eval_defs spec_membrane_def)

text \<open>
  C6, amended. On an input dict without the error marker on which the call returns,
  for an eye that is a dict whose \<open>mle\<close> or \<open>ze\<close> is a str: the returned value is
  \<open>Continue\<close> if the lower-cased raw value contains \<open>continu\<close>, else
  \<open>Partiellement interrompue\<close> if it contains \<open>partiel\<close>, else
  \<open>Completement_interrompue\<close> if it contains \<open>complet\<close>, else the raw value unchanged.
\<close>

theorem membrane_normalized:
  assumes "process_gpt_response (JDict d) = Inr out"
    and "map_of d (lit ''error'') = None"
    and "eye = lit ''left_eye'' \<or> eye = lit ''right_eye''"
    and "map_of d eye = Some (JDict e)"
    and "field = lit ''mle'' \<or> field = lit ''ze''"
    and "map_of e field = Some (JStr raw)"
  shows "at_path (returned out) [eye, field] =
           Some (JStr (if str_contains (lit ''continu'') (lower raw) then Continue
                       else if str_contains (lit ''partiel'') (lower raw)
                       then Partiellement_interrompue
                       else if str_contains (lit ''complet'') (lower raw)
                       then Completement_interrompue
                       else raw))"
proof -
  from returned_field [OF assms(1-4,6), of "[]"] obtain v' where
    v': "field_result field (Some (JStr raw)) = Some v'" and
    at: "at_path (returned out) [eye, field] = at_path v' []"
    by blast
  from assms(5) v' have "v' = JStr (membrane_value raw)"
    by (auto simp: field_result_rules membrane_rule_def)
  with at show ?thesis by (simp add: membrane_value_def)
qed

theorem membrane_normalized_witness:
  "returned_at
     (process_gpt_response
        (JDict [(lit ''left_eye'', JDict [(lit ''ze'', JStr (lit ''Rupture PARTIELLE''))])]))
     [lit ''left_eye'', lit ''ze''] = Some (JStr Partiellement_interrompue)"
proof -
  let ?e = "[(lit ''ze'', JStr (lit ''Rupture PARTIELLE''))]"
  let ?d = "[(lit ''left_eye'', JDict ?e)]"
  have "well_shaped (JDict ?d)" by (simp add: field_ok_def)
  then obtain out where out: "process_gpt_response (JDict ?d) = Inr out"
    using process_gpt_response_returns by blast
  have l: "lower (lit ''Rupture PARTIELLE'') = lit ''rupture partielle''"
    by (simp add: lit_def lower_def lower_cp_def)
  have c: "\<not> str_contains (lit ''continu'') (lit ''rupture partielle'')"
    "str_contains (lit ''partiel'') (lit ''rupture partielle'')"
    by (simp_all add: lit_def)
  have "at_path (returned out) [lit ''left_eye'', lit ''ze''] =
          Some (JStr Partiellement_interrompue)"
    using membrane_normalized
      [OF out, where e = ?e and field = "lit ''ze''" and raw = "lit ''Rupture PARTIELLE''"]
    by (simp add: l c)
  then show ?thesis by (simp add: out returned_at_def)
qed

subsection \<open>C7: a missing eye\<close>



subsection \<open>C8: what the call does to its argument\<close>

text \<open>
  C8 as stated in the specification (the object passed in is left unchanged) fails:
  called on \<open>{"left_eye": {}}\<close>, the function fills the eye in place, adds
  \<open>right_eye\<close> to the same dict (line 261) and returns that dict (line 324), so the
  caller's object no longer holds what it held before the call.
\<close>

theorem pure_transform_counterexample:
  "process_gpt_response (JDict [(lit ''left_eye'', JDict [])]) =
     Inr \<lparr>returned = JDict default_structure, response_after = JDict default_structure\<rparr> \<and>
   JDict default_structure \<noteq> JDict [(lit ''left_eye'', JDict [])]"
  by (simp add: eval_defs)

text \<open>
  C8, amended. When the input has the error marker, the call leaves it as it was and
  returns the default structure built by this call. Otherwise a call that returns
  has updated the input dict in place and returns that dict: its contents after the
  call are the value returned, and they differ from its contents before the call
  whenever the input lacked an eye. (A call that returns was given a dict, so one of
  the two cases applies.)
\<close>

theorem input_updated_in_place:
  assumes "process_gpt_response x = Inr out"
  shows "(py_in (lit ''error'') x = Inr True \<longrightarrow>
            response_after out = x \<and> returned out = JDict default_structure) \<and>
         (py_in (lit ''error'') x = Inr False \<longrightarrow>
            response_after out = returned out \<and>
            (at_path x [lit ''left_eye''] = None \<or> at_path x [lit ''right_eye''] = None \<longrightarrow>
               response_after out \<noteq> x)) \<and>
         (py_in (lit ''error'') x = Inr True \<or> py_in (lit ''error'') x = Inr False)"
proof -
  from assms obtain d where x: "x = JDict d" by (rule returns_dict)
  note ret = assms [unfolded x]
  show ?thesis
  proof (cases "map_of d (lit ''error'') = None")
    case True
    from process_gpt_response_lookup [OF ret True]
    have same: "response_after out = returned out" by auto
    have "returned out \<noteq> x"
      if "at_path x [lit ''left_eye''] = None \<or> at_path x [lit ''right_eye''] = None"
    proof -
      from that x obtain eye where
        eye: "eye = lit ''left_eye'' \<or> eye = lit ''right_eye''" and
        none: "map_of d eye = None" and at: "at_path x [eye] = None"
        by (auto split: option.splits)
      from returned_eye_absent [OF ret eye none] at show ?thesis by auto
    qed
    with same x True show ?thesis by auto
  next
    case False
    with ret x show ?thesis by (auto simp: process_gpt_response_dict bind_eq_Inr)
  qed
qed

theorem input_updated_in_place_witness:
  "py_in (lit ''error'') (JDict [(lit ''left_eye'', JDict [])]) = Inr False \<and>
   at_path (JDict [(lit ''left_eye'', JDict [])]) [lit ''right_eye''] = None \<and>
   (\<exists>out. process_gpt_response (JDict [(lit ''left_eye'', JDict [])]) = Inr out \<and>
      response_after out = returned out \<and>
      response_after out \<noteq> JDict [(lit ''left_eye'', JDict [])])"
proof -
  have r: "process_gpt_response (JDict [(lit ''left_eye'', JDict [])]) =
     Inr \<lparr>returned = JDict default_structure, response_after = JDict default_structure\<rparr>"
    by (simp add: eval_defs)
  have a: "py_in (lit ''error'') (JDict [(lit ''left_eye'', JDict [])]) = Inr False"
    and b: "at_path (JDict [(lit ''left_eye'', JDict [])]) [lit ''right_eye''] = None"
    by simp_all
  from input_updated_in_place [OF r] a b r show ?thesis by blast
qed

subsection \<open>C9: a retinal thickness given as one string\<close>

text \<open>
  C9 as stated in the specification (for every input) fails on an input that also
  carries the error marker: the call returns the default structure, whose central
  sector is empty, and the string of the input is not looked at.
\<close>

theorem thickness_error_marker_counterexample:
  "returned_at
     (process_gpt_response
        (JDict [(lit ''error'', JStr (lit ''timeout'')),
                (lit ''left_eye'',
                 JDict [(lit ''epaisseur_retinienne'', JStr (lit ''250um central''))])]))
     [lit ''left_eye'', lit ''epaisseur_retinienne'', lit ''central''] = Some (JStr []) \<and>
   JStr [] \<noteq> JStr (lit ''250um central'')"
  by (simp add: eval_defs)

text \<open>
  C9, amended. On an input dict without the error marker on which the call returns,
  for an eye that is a dict whose \<open>epaisseur_retinienne\<close> is a str: the returned
  \<open>epaisseur_retinienne\<close> of that eye is the dict with that str under \<open>central\<close> and the
  empty str under \<open>superieur\<close>, \<open>inferieur\<close>, \<open>nasal\<close> and \<open>temporal\<close>.
\<close>

theorem thickness_flattened:
  assumes "process_gpt_response (JDict d) = Inr out"
    and "map_of d (lit ''error'') = None"
    and "eye = lit ''left_eye'' \<or> eye = lit ''right_eye''"
    and "map_of d eye = Some (JDict e)"
    and "map_of e (lit ''epaisseur_retinienne'') = Some (JStr s)"
  shows "at_path (returned out) [eye, lit ''epaisseur_retinienne''] =
           Some (JDict [(lit ''central'', JStr s), (lit ''superieur'', JStr []),
                        (lit ''inferieur'', JStr []), (lit ''nasal'', JStr []),
                        (lit ''temporal'', JStr [])])"
proof -
  from returned_field [OF assms(1-5), of "[]"] obtain v' where
    v': "field_result (lit ''epaisseur_retinienne'') (Some (JStr s)) = Some v'" and
    at: "at_path (returned out) [eye, lit ''epaisseur_retinienne''] = at_path v' []"
    by blast
  from v' have "v' = wrap_central (JStr s)" by (simp add: field_result_rules)
  with at show ?thesis by (simp add: wrap_central_def)
qed

theorem thickness_flattened_witness:
  "returned_at
     (process_gpt_response
        (JDict [(lit ''left_eye'',
                 JDict [(lit ''epaisseur_retinienne'', JStr (lit ''250um central''))])]))
     [lit ''left_eye'', lit ''epaisseur_retinienne''] =
   Some (JDict [(lit ''central'', JStr (lit ''250um central'')), (lit ''superieur'', JStr []),
                (lit ''inferieur'', JStr []), (lit ''nasal'', JStr []),
                (lit ''temporal'', JStr [])])"
proof -
  let ?e = "[(lit ''epaisseur_retinienne'', JStr (lit ''250um central''))]"
  let ?d = "[(lit ''left_eye'', JDict ?e)]"
  have "well_shaped (JDict ?d)" by (simp add: field_ok_def)
  then obtain out where out: "process_gpt_response (JDict ?d) = Inr out"
    using process_gpt_response_returns by blast
  have "at_path (returned out) [lit ''left_eye'', lit ''epaisseur_retinienne''] =
          Some (JDict [(lit ''central'', JStr (lit ''250um central'')),
                       (lit ''superieur'', JStr []), (lit ''inferieur'', JStr []),
                       (lit ''nasal'', JStr []), (lit ''temporal'', JStr [])])"
    by (rule thickness_flattened [OF out, where e = ?e]) simp_all
  then show ?thesis by (simp add: out returned_at_def)
qed

subsection \<open>C10: idempotence\<close>

text \<open>
  C10. When \<open>process_gpt_response\<close> returns on an input, calling it again on the value
  it returned returns that same value, with nothing changed.
\<close>

theorem process_gpt_response_idempotent:
  assumes "process_gpt_response x = Inr out"
  shows "process_gpt_response (returned out) =
           Inr \<lparr>returned = returned out, response_after = returned out\<rparr>"
proof -
  from assms process_gpt_response_not_dict [of x] have "is_dict x" by force
  then obtain d where x: "x = JDict d" by (cases x) simp_all
  show ?thesis
  proof (cases "map_of d (lit ''error'') = None")
    case False
    with assms x have out: "returned out = JDict default_structure"
      by (auto simp: process_gpt_response_dict bind_eq_Inr)
    show ?thesis by (simp only: out process_gpt_response_default)
  next
    case True
    from assms x have "process_gpt_response (JDict d) = Inr out" by simp
    from process_gpt_response_lookup [OF this True] obtain d2 where
      r: "returned out = JDict d2" and
      look: "\<And>k. map_of d2 k =
        (if k = lit ''left_eye'' \<or> k = lit ''right_eye'' then eye_result (map_of d k)
         else map_of d k)"
      by blast
    from assms x have ok: "well_shaped (JDict d)"
      using process_gpt_response_returns [of x] by blast
    have step: "eye_step eye d2 = Inr d2"
      if eye: "eye = lit ''left_eye'' \<or> eye = lit ''right_eye''" for eye
    proof (cases "map_of d eye")
      case None
      with eye have "map_of d2 eye = Some (JDict default_eye)"
        by (simp add: look eye_result_def)
      then show ?thesis using process_eye_default by (rule eye_step_fixed)
    next
      case (Some v)
      with ok True eye have "eye_ok v" by auto
      then obtain v' where v': "process_eye v = Inr v'"
        using process_eye_returns [of v] by blast
      with Some eye have "map_of d2 eye = Some v'" by (simp add: look eye_result_def)
      then show ?thesis using process_eye_idem [OF v'] by (rule eye_step_fixed)
    qed
    have "map_of d2 (lit ''error'') = None"
      using True by (simp add: look)
    then show ?thesis
      by (simp add: r process_gpt_response_dict step)
  qed
qed

theorem process_gpt_response_idempotent_witness:
  "\<exists>out. process_gpt_response
       (JDict [(lit ''left_eye'',
                JDict [(lit ''dril'', JDict [(lit ''status'', JStr (lit ''PRESENT''))]),
                       (lit ''oedeme'', JDict [(lit ''status'', JStr (lit ''absent'')),
                                               (lit ''taille'', JStr (lit ''Small''))]),
                       (lit ''ze'', JStr (lit ''Rupture partielle'')),
                       (lit ''epaisseur_retinienne'', JStr (lit ''250um central''))])]) = Inr out \<and>
     process_gpt_response (returned out) =
       Inr \<lparr>returned = returned out, response_after = returned out\<rparr>"
proof -
  have "well_shaped
       (JDict [(lit ''left_eye'',
                JDict [(lit ''dril'', JDict [(lit ''status'', JStr (lit ''PRESENT''))]),
                       (lit ''oedeme'', JDict [(lit ''status'', JStr (lit ''absent'')),
                                               (lit ''taille'', JStr (lit ''Small''))]),
                       (lit ''ze'', JStr (lit ''Rupture partielle'')),
                       (lit ''epaisseur_retinienne'', JStr (lit ''250um central''))])])"
    by (simp add: field_ok_def)
  then obtain out where out: "process_gpt_response
       (JDict [(lit ''left_eye'',
                JDict [(lit ''dril'', JDict [(lit ''status'', JStr (lit ''PRESENT''))]),
                       (lit ''oedeme'', JDict [(lit ''status'', JStr (lit ''absent'')),
                                               (lit ''taille'', JStr (lit ''Small''))]),
                       (lit ''ze'', JStr (lit ''Rupture partielle'')),
                       (lit ''epaisseur_retinienne'', JStr (lit ''250um central''))])]) = Inr out"
    using process_gpt_response_returns by blast
  with process_gpt_response_idempotent [OF out] show ?thesis by blast
qed

end
